theory Spec2Isabelle
  imports Main "HOL-Library.Word" "HOL-Library.Signed_Division"
begin

section \<open>Solidity values and the execution environment\<close>

text \<open>
  The three contracts (ReactiveManager, DestinationHandler, OriginPosition) are written in
  Solidity 0.8: \<open>uint256\<close>, \<open>int256\<close> and \<open>bytes32\<close> are 256-bit words, an
  \<open>address\<close> is a 160-bit word, arithmetic is checked (an overflow or a division by zero
  is a panic), and a failed \<open>require\<close>, a \<open>revert\<close> or a panic aborts the whole call.
  An aborted call is the value \<open>Inl err\<close> and carries no state: the state after it is the
  state before it (see \<open>after\<close> below).
\<close>

type_synonym uint256 = "256 word"
type_synonym int256 = "256 word"
type_synonym bytes32 = "256 word"
type_synonym address = "160 word"
type_synonym bytes = "8 word list"

datatype error = Revert string | Panic nat

text \<open>What a call sees of its transaction and block.\<close>

record env =
  msg_sender :: address
  msg_value :: uint256
  block_timestamp :: uint256
  block_number :: uint256
  block_chainid :: uint256

text \<open>
  What the contracts use and do not define: the hash function, the signature recovery of
  OpenZeppelin's ECDSA library (which reverts on a malformed signature), and the two calls
  made to ERC-20 token contracts (\<open>None\<close> and \<open>False\<close> when the token call reverts).
\<close>

record evm =
  keccak256 :: "bytes \<Rightarrow> bytes32"
  ecdsa_recover :: "bytes32 \<Rightarrow> bytes \<Rightarrow> error + address"
  erc20_balanceOf :: "address \<Rightarrow> address \<Rightarrow> uint256 option"
  erc20_safeTransfer :: "address \<Rightarrow> address \<Rightarrow> uint256 \<Rightarrow> bool"

text \<open>The state a call leaves behind: its result when it returns, the old state when it aborts.\<close>

definition after :: "'s \<Rightarrow> error + 's \<Rightarrow> 's" where
  "after s r = (case r of Inl err \<Rightarrow> s | Inr s' \<Rightarrow> s')"

definition after_ret :: "'s \<Rightarrow> error + 's \<times> 'r \<Rightarrow> 's" where
  "after_ret s r = (case r of Inl err \<Rightarrow> s | Inr (s', v) \<Rightarrow> s')"

subsection \<open>Bytes\<close>

text \<open>Big-endian bytes of a word (\<open>n\<close> of them) and back; a string's bytes.\<close>

definition bytes_of_uint :: "nat \<Rightarrow> 'a::len word \<Rightarrow> bytes" where
  "bytes_of_uint n w = map (\<lambda>i. ucast (drop_bit (8 * (n - 1 - i)) w)) [0..<n]"

definition uint_of_bytes :: "bytes \<Rightarrow> uint256" where
  "uint_of_bytes bs = foldl (\<lambda>acc b. acc * 256 + ucast b) 0 bs"

definition bytes_of_string :: "string \<Rightarrow> bytes" where
  "bytes_of_string str = map of_char str"

definition string_of_bytes :: "bytes \<Rightarrow> string" where
  "string_of_bytes bs = map (\<lambda>b. char_of (unat b)) bs"

subsection \<open>Checked arithmetic\<close>

definition checked_add :: "uint256 \<Rightarrow> uint256 \<Rightarrow> error + uint256" where
  "checked_add a b = (if unat a + unat b < 2 ^ 256 then Inr (a + b) else Inl (Panic 0x11))"

definition checked_sub :: "uint256 \<Rightarrow> uint256 \<Rightarrow> error + uint256" where
  "checked_sub a b = (if b \<le> a then Inr (a - b) else Inl (Panic 0x11))"

definition checked_mul :: "uint256 \<Rightarrow> uint256 \<Rightarrow> error + uint256" where
  "checked_mul a b = (if unat a * unat b < 2 ^ 256 then Inr (a * b) else Inl (Panic 0x11))"

definition checked_div :: "uint256 \<Rightarrow> uint256 \<Rightarrow> error + uint256" where
  "checked_div a b = (if b = 0 then Inl (Panic 0x12) else Inr (a div b))"

text \<open>Unary minus on \<open>int256\<close>: the least value has no negation.\<close>

definition checked_neg :: "int256 \<Rightarrow> error + int256" where
  "checked_neg x = (if sint x = - (2 ^ 255) then Inl (Panic 0x11) else Inr (- x))"

subsection \<open>ABI coding\<close>

text \<open>\<open>abi.decode(data, (uint256, uint256, int256))\<close>: three words, at least 96 bytes.\<close>

definition abi_decode_words3 :: "bytes \<Rightarrow> error + uint256 \<times> uint256 \<times> int256" where
  "abi_decode_words3 d =
     (if length d < 96 then Inl (Revert [])
      else Inr (uint_of_bytes (take 32 d),
                uint_of_bytes (take 32 (drop 32 d)),
                uint_of_bytes (take 32 (drop 64 d))))"

definition abi_encode_words3 :: "uint256 \<Rightarrow> uint256 \<Rightarrow> int256 \<Rightarrow> bytes" where
  "abi_encode_words3 a b c = bytes_of_uint 32 a @ bytes_of_uint 32 b @ bytes_of_uint 32 c"

text \<open>A dynamic \<open>bytes\<close> or \<open>string\<close> value: its length, its bytes, zero padding to 32.\<close>

definition abi_encode_dyn :: "bytes \<Rightarrow> bytes" where
  "abi_encode_dyn bs =
     bytes_of_uint 32 (of_nat (length bs) :: uint256) @ bs
       @ replicate ((32 - length bs mod 32) mod 32) 0"

text \<open>\<open>abi.encode(string, uint256, address)\<close>.\<close>

definition abi_encode_action :: "string \<Rightarrow> uint256 \<Rightarrow> address \<Rightarrow> bytes" where
  "abi_encode_action actionType amount token =
     bytes_of_uint 32 (0x60 :: uint256) @ bytes_of_uint 32 amount
       @ bytes_of_uint 32 (ucast token :: uint256)
       @ abi_encode_dyn (bytes_of_string actionType)"

text \<open>
  \<open>abi.decode(data, (string, uint256, address))\<close>: the head holds the offset of the
  string, the amount and the address; the decoder reverts on a short buffer, on an offset or
  length beyond 64 bits or beyond the buffer, and on an address with dirty upper bits.
  Which error an aborted decoding carries is exact up to one case: for a length word just
  below \<open>2^64\<close> the compiled decoder can already panic (0x41) while it allocates the
  string, where this function reverts on the length check; the call is aborted either way.
\<close>

definition abi_decode_action :: "bytes \<Rightarrow> error + string \<times> uint256 \<times> address" where
  "abi_decode_action d =
     (if length d < 96 then Inl (Revert [])
      else let off = uint_of_bytes (take 32 d);
               amount = uint_of_bytes (take 32 (drop 32 d));
               tok = uint_of_bytes (take 32 (drop 64 d))
           in if off > 0xffffffffffffffff \<or> \<not> (unat off + 31 < length d) then Inl (Revert [])
              else let n = uint_of_bytes (take 32 (drop (unat off) d))
                   in if n > 0xffffffffffffffff then Inl (Panic 0x41)
                      else if length d < unat off + 32 + unat n then Inl (Revert [])
                      else if tok \<noteq> ucast (ucast tok :: address) then Inl (Revert [])
                      else Inr (string_of_bytes (take (unat n) (drop (unat off + 32) d)),
                                amount, ucast tok))"

section \<open>ReactiveManager\<close>

record Position =
  user :: address
  originChainId :: uint256
  originContract :: address
  originToken :: address
  positionIdentifier :: string
  threshold :: uint256
  actionType :: string
  gasBudget :: uint256
  isActive :: bool
  createdAt :: uint256
  lastTriggered :: uint256

datatype manager_event =
    PositionCreated bytes32 address uint256 address uint256 string
  | PositionUpdated bytes32 uint256 string
  | ReactiveActionTriggered bytes32 bytes32 bytes32 uint256
  | SubscriptionRegistered bytes32 address bytes32
  | CallbackEmitted bytes32 uint256 address bytes
  | GasBudgetUpdated bytes32 uint256
  | PositionDeactivated bytes32 address
  | Paused address
  | Unpaused address

text \<open>
  The contract's storage (a Solidity mapping is a total function: an absent key reads as
  the zero value), the inherited Ownable, Pausable and ReentrancyGuard fields, the ether
  held, and the log of emitted events.
\<close>

record manager =
  m_owner :: address
  m_paused :: bool
  m_entered :: bool
  positions :: "bytes32 \<Rightarrow> Position"
  userPositions :: "address \<Rightarrow> bytes32 list"
  processedEvents :: "bytes32 \<Rightarrow> bool"
  originPositionContract :: address
  destinationHandlerContract :: address
  destinationChainId :: uint256
  totalPositions :: uint256
  totalReactiveActions :: uint256
  totalGasUsed :: uint256
  m_balance :: uint256
  m_events :: "manager_event list"

definition REACTIVE_SYSTEM :: address where
  "REACTIVE_SYSTEM = 1"

definition POSITION_CREATED_SIGNATURE :: "evm \<Rightarrow> bytes32" where
  "POSITION_CREATED_SIGNATURE X = keccak256 X (bytes_of_string
     ''PositionCreated(bytes32,address,address,address,uint256,uint256,uint256)'')"

definition PRICE_UPDATE_SIGNATURE :: "evm \<Rightarrow> bytes32" where
  "PRICE_UPDATE_SIGNATURE X = keccak256 X (bytes_of_string
     ''PriceUpdate(bytes32,uint256,uint256,int256)'')"

definition LIQUIDITY_UPDATE_SIGNATURE :: "evm \<Rightarrow> bytes32" where
  "LIQUIDITY_UPDATE_SIGNATURE X = keccak256 X (bytes_of_string
     ''LiquidityUpdate(bytes32,uint256,uint256,int256)'')"

definition zero_Position :: Position where
  "zero_Position = \<lparr> user = 0, originChainId = 0, originContract = 0, originToken = 0,
     positionIdentifier = [], threshold = 0, actionType = [], gasBudget = 0,
     isActive = False, createdAt = 0, lastTriggered = 0 \<rparr>"

text \<open>
  The constructor (not payable): Ownable makes the deployer the owner; three subscriptions
  are logged.
\<close>

definition registerSubscriptions :: "evm \<Rightarrow> env \<Rightarrow> manager \<Rightarrow> manager" where
  "registerSubscriptions X e s =
     (let sub = (\<lambda>sg. SubscriptionRegistered
                   (keccak256 X (bytes_of_uint 20 (originPositionContract s) @ bytes_of_uint 32 sg
                      @ bytes_of_uint 32 (block_timestamp e)))
                   (originPositionContract s) sg)
      in s\<lparr>m_events := m_events s @ [sub (POSITION_CREATED_SIGNATURE X),
             sub (PRICE_UPDATE_SIGNATURE X), sub (LIQUIDITY_UPDATE_SIGNATURE X)]\<rparr>)"

definition manager_constructor :: "evm \<Rightarrow> env \<Rightarrow> address \<Rightarrow> address \<Rightarrow> uint256 \<Rightarrow> manager" where
  "manager_constructor X e originPosition destinationHandler destChainId =
     registerSubscriptions X e
       \<lparr> m_owner = msg_sender e, m_paused = False, m_entered = False,
         positions = (\<lambda>_. zero_Position), userPositions = (\<lambda>_. []),
         processedEvents = (\<lambda>_. False),
         originPositionContract = originPosition,
         destinationHandlerContract = destinationHandler,
         destinationChainId = destChainId,
         totalPositions = 0, totalReactiveActions = 0, totalGasUsed = 0,
         m_balance = 0, m_events = [] \<rparr>"


text \<open>\<open>updatePosition\<close>: not payable, \<open>whenNotPaused\<close>.\<close>

definition updatePosition ::
  "env \<Rightarrow> bytes32 \<Rightarrow> uint256 \<Rightarrow> string \<Rightarrow> uint256 \<Rightarrow> manager \<Rightarrow> error + manager" where
  "updatePosition e positionId newThreshold newActionType newGasBudget s =
     (if msg_value e \<noteq> 0 then Inl (Revert [])
      else if m_paused s then Inl (Revert ''Pausable: paused'')
      else if \<not> isActive (positions s positionId) then Inl (Revert ''Position not active'')
      else if \<not> user (positions s positionId) = msg_sender e then Inl (Revert ''Not position owner'')
      else if \<not> newThreshold > 0 then Inl (Revert ''Invalid threshold'')
      else if \<not> length (bytes_of_string newActionType) > 0 then Inl (Revert ''Invalid action type'')
      else Inr (s\<lparr> positions := (positions s)(positionId := (positions s positionId)
                      \<lparr> threshold := newThreshold, actionType := newActionType,
                        gasBudget := newGasBudget \<rparr>),
                   m_events := m_events s @ [PositionUpdated positionId newThreshold newActionType] \<rparr>))"

text \<open>\<open>deactivatePosition\<close>: not payable, no pause modifier.\<close>

definition deactivatePosition :: "env \<Rightarrow> bytes32 \<Rightarrow> manager \<Rightarrow> error + manager" where
  "deactivatePosition e positionId s =
     (if msg_value e \<noteq> 0 then Inl (Revert [])
      else if \<not> isActive (positions s positionId) then Inl (Revert ''Position not active'')
      else if \<not> (user (positions s positionId) = msg_sender e \<or> msg_sender e = m_owner s)
        then Inl (Revert ''Not authorized'')
      else Inr (s\<lparr> positions := (positions s)(positionId := (positions s positionId)
                      \<lparr> isActive := False \<rparr>),
                   m_events := m_events s
                     @ [PositionDeactivated positionId (user (positions s positionId))] \<rparr>))"

text \<open>\<open>updateGasBudget\<close>: payable, no pause modifier.\<close>

definition updateGasBudget :: "env \<Rightarrow> bytes32 \<Rightarrow> uint256 \<Rightarrow> manager \<Rightarrow> error + manager" where
  "updateGasBudget e positionId newGasBudget s =
     (if \<not> isActive (positions s positionId) then Inl (Revert ''Position not active'')
      else if \<not> user (positions s positionId) = msg_sender e then Inl (Revert ''Not position owner'')
      else if \<not> newGasBudget > 0 then Inl (Revert ''Invalid gas budget'')
      else if \<not> msg_value e \<ge> newGasBudget then Inl (Revert ''Insufficient gas payment'')
      else Inr (s\<lparr> positions := (positions s)(positionId := (positions s positionId)
                      \<lparr> gasBudget := newGasBudget \<rparr>),
                   m_balance := m_balance s + msg_value e,
                   m_events := m_events s @ [GasBudgetUpdated positionId newGasBudget] \<rparr>))"

text \<open>\<open>pause\<close> and \<open>unpause\<close>: \<open>onlyOwner\<close>, then Pausable's own state check.\<close>

definition pause :: "env \<Rightarrow> manager \<Rightarrow> error + manager" where
  "pause e s =
     (if msg_value e \<noteq> 0 then Inl (Revert [])
      else if m_owner s \<noteq> msg_sender e then Inl (Revert ''Ownable: caller is not the owner'')
      else if m_paused s then Inl (Revert ''Pausable: paused'')
      else Inr (s\<lparr> m_paused := True, m_events := m_events s @ [Paused (msg_sender e)] \<rparr>))"

definition unpause :: "env \<Rightarrow> manager \<Rightarrow> error + manager" where
  "unpause e s =
     (if msg_value e \<noteq> 0 then Inl (Revert [])
      else if m_owner s \<noteq> msg_sender e then Inl (Revert ''Ownable: caller is not the owner'')
      else if \<not> m_paused s then Inl (Revert ''Pausable: not paused'')
      else Inr (s\<lparr> m_paused := False, m_events := m_events s @ [Unpaused (msg_sender e)] \<rparr>))"

text \<open>\<open>_parseLog\<close>: a 32-byte signature, a 32-byte position id, then the event data.\<close>

definition parseLog :: "bytes \<Rightarrow> error + bytes32 \<times> bytes32 \<times> bytes" where
  "parseLog log =
     (if \<not> length log \<ge> 64 then Inl (Revert ''Invalid log data'')
      else Inr (uint_of_bytes (take 32 log), uint_of_bytes (take 32 (drop 32 log)), drop 64 log))"

text \<open>
  The call data of the callback request:
  \<open>abi.encodeWithSignature("processCallback(bytes32,bytes32,bytes,bytes)", ...)\<close>.
\<close>

definition encode_processCallback :: "evm \<Rightarrow> bytes32 \<Rightarrow> bytes32 \<Rightarrow> bytes \<Rightarrow> bytes \<Rightarrow> bytes" where
  "encode_processCallback X callbackId positionId actionData signature =
     take 4 (bytes_of_uint 32 (keccak256 X
       (bytes_of_string ''processCallback(bytes32,bytes32,bytes,bytes)'')))
     @ bytes_of_uint 32 callbackId @ bytes_of_uint 32 positionId
     @ bytes_of_uint 32 (0x80 :: uint256)
     @ bytes_of_uint 32 (of_nat (0x80 + length (abi_encode_dyn actionData)) :: uint256)
     @ abi_encode_dyn actionData @ abi_encode_dyn signature"

text \<open>\<open>_triggerReactiveAction\<close>.\<close>

definition triggerReactiveAction ::
  "evm \<Rightarrow> env \<Rightarrow> bytes32 \<Rightarrow> string \<Rightarrow> bytes \<Rightarrow> manager \<Rightarrow> error + manager" where
  "triggerReactiveAction X e positionId triggerReason triggerData s =
     (case checked_add (totalReactiveActions s) 1 of
        Inl err \<Rightarrow> Inl err
      | Inr n \<Rightarrow>
          let position = (positions s positionId)\<lparr> lastTriggered := block_timestamp e \<rparr>;
              callData = encode_processCallback X
                (keccak256 X (bytes_of_uint 32 positionId @ bytes_of_uint 32 (block_timestamp e)))
                positionId
                (abi_encode_action (actionType position) (threshold position)
                   (originToken position))
                []
          in case checked_add (totalGasUsed s) (gasBudget position) of
               Inl err \<Rightarrow> Inl err
             | Inr g \<Rightarrow>
                 Inr (s\<lparr> positions := (positions s)(positionId := position),
                         totalReactiveActions := n,
                         totalGasUsed := g,
                         m_events := m_events s
                           @ [CallbackEmitted positionId (destinationChainId s)
                                (destinationHandlerContract s) callData,
                              ReactiveActionTriggered positionId 0 0 (gasBudget position)] \<rparr>))"

text \<open>
  \<open>_handlePriceUpdate\<close> and \<open>_handleLiquidityUpdate\<close>: decode, take the absolute value of
  the signed change, compare with the threshold.
\<close>

definition handlePriceUpdate :: "evm \<Rightarrow> env \<Rightarrow> bytes32 \<Rightarrow> bytes \<Rightarrow> manager \<Rightarrow> error + manager" where
  "handlePriceUpdate X e positionId eventData s =
     (case abi_decode_words3 eventData of
        Inl err \<Rightarrow> Inl err
      | Inr (oldPrice, newPrice, priceChange) \<Rightarrow>
          (case (if sint priceChange < 0 then checked_neg priceChange else Inr priceChange) of
             Inl err \<Rightarrow> Inl err
           | Inr absPriceChange \<Rightarrow>
               if absPriceChange \<ge> threshold (positions s positionId)
               then triggerReactiveAction X e positionId ''price_threshold_exceeded''
                      (abi_encode_words3 oldPrice newPrice priceChange) s
               else Inr s))"

definition handleLiquidityUpdate :: "evm \<Rightarrow> env \<Rightarrow> bytes32 \<Rightarrow> bytes \<Rightarrow> manager \<Rightarrow> error + manager" where
  "handleLiquidityUpdate X e positionId eventData s =
     (case abi_decode_words3 eventData of
        Inl err \<Rightarrow> Inl err
      | Inr (oldLiquidity, newLiquidity, liquidityChange) \<Rightarrow>
          (case (if sint liquidityChange < 0 then checked_neg liquidityChange
                 else Inr liquidityChange) of
             Inl err \<Rightarrow> Inl err
           | Inr absLiquidityChange \<Rightarrow>
               if absLiquidityChange \<ge> threshold (positions s positionId)
               then triggerReactiveAction X e positionId ''liquidity_threshold_exceeded''
                      (abi_encode_words3 oldLiquidity newLiquidity liquidityChange) s
               else Inr s))"

definition handlePositionCreated :: "bytes32 \<Rightarrow> bytes \<Rightarrow> manager \<Rightarrow> error + manager" where
  "handlePositionCreated positionId eventData s =
     Inr (s\<lparr> m_events := m_events s @ [ReactiveActionTriggered positionId 0 0 0] \<rparr>)"

text \<open>\<open>react\<close>: not payable, \<open>whenNotPaused\<close>, callable by the Reactive Network only.\<close>

definition react :: "evm \<Rightarrow> env \<Rightarrow> bytes \<Rightarrow> manager \<Rightarrow> error + manager" where
  "react X e log s =
     (if msg_value e \<noteq> 0 then Inl (Revert [])
      else if m_paused s then Inl (Revert ''Pausable: paused'')
      else if \<not> msg_sender e = REACTIVE_SYSTEM
        then Inl (Revert ''Only Reactive Network can call react'')
      else case parseLog log of
        Inl err \<Rightarrow> Inl err
      | Inr (eventSignature, positionId, eventData) \<Rightarrow>
          let eventHash = keccak256 X
                (bytes_of_uint 32 eventSignature @ bytes_of_uint 32 positionId @ eventData)
          in if \<not> \<not> processedEvents s eventHash then Inl (Revert ''Event already processed'')
             else let s1 = s\<lparr> processedEvents := (processedEvents s)(eventHash := True) \<rparr>
                  in if \<not> isActive (positions s1 positionId) then Inl (Revert ''Position not active'')
                     else if eventSignature = PRICE_UPDATE_SIGNATURE X
                       then handlePriceUpdate X e positionId eventData s1
                     else if eventSignature = LIQUIDITY_UPDATE_SIGNATURE X
                       then handleLiquidityUpdate X e positionId eventData s1
                     else if eventSignature = POSITION_CREATED_SIGNATURE X
                       then handlePositionCreated positionId eventData s1
                     else Inr s1)"

text \<open>
  Two states used to describe what \<open>react\<close> returns: the state with the event's hash
  marked as processed, and the state that a trigger leaves.
\<close>

definition marked :: "evm \<Rightarrow> bytes32 \<Rightarrow> bytes32 \<Rightarrow> bytes \<Rightarrow> manager \<Rightarrow> manager" where
  "marked X sg pid d s =
     s\<lparr> processedEvents := (processedEvents s)
          (keccak256 X (bytes_of_uint 32 sg @ bytes_of_uint 32 pid @ d) := True) \<rparr>"

definition triggered :: "evm \<Rightarrow> env \<Rightarrow> bytes32 \<Rightarrow> manager \<Rightarrow> manager" where
  "triggered X e pid s =
     s\<lparr> positions := (positions s)(pid := (positions s pid)\<lparr> lastTriggered := block_timestamp e \<rparr>),
        totalReactiveActions := totalReactiveActions s + 1,
        totalGasUsed := totalGasUsed s + gasBudget (positions s pid),
        m_events := m_events s
          @ [CallbackEmitted pid (destinationChainId s) (destinationHandlerContract s)
               (encode_processCallback X
                  (keccak256 X (bytes_of_uint 32 pid @ bytes_of_uint 32 (block_timestamp e)))
                  pid
                  (abi_encode_action (actionType (positions s pid)) (threshold (positions s pid))
                     (originToken (positions s pid)))
                  []),
             ReactiveActionTriggered pid 0 0 (gasBudget (positions s pid))] \<rparr>"

section \<open>DestinationHandler\<close>

datatype handler_event =
    HedgingTradeExecuted bytes32 address address uint256 uint256 bytes32
  | RebalancingExecuted bytes32 string uint256 bytes32
  | CallbackProcessed bytes32 bool
  | AuthorizedCallerUpdated address bool
  | HandlerPaused address
  | HandlerUnpaused address
  | OwnershipTransferred address address

record handler =
  h_this :: address
  h_owner :: address
  h_paused :: bool
  h_entered :: bool
  processedCallbacks :: "bytes32 \<Rightarrow> bool"
  authorizedCallers :: "address \<Rightarrow> bool"
  h_events :: "handler_event list"

text \<open>
  The constructor: the deployer owns the contract (the constructor of OpenZeppelin's
  \<open>Ownable\<close> records it) and is the first authorized caller.
\<close>

definition handler_constructor :: "env \<Rightarrow> address \<Rightarrow> handler" where
  "handler_constructor e this =
     \<lparr> h_this = this, h_owner = msg_sender e, h_paused = False, h_entered = False,
       processedCallbacks = (\<lambda>_. False),
       authorizedCallers = (\<lambda>_. False)(msg_sender e := True),
       h_events = [OwnershipTransferred 0 (msg_sender e)] \<rparr>"

text \<open>\<open>_calculateSwapOutput\<close>: 95% of the input.\<close>

definition calculateSwapOutput :: "address \<Rightarrow> address \<Rightarrow> uint256 \<Rightarrow> error + uint256" where
  "calculateSwapOutput tokenIn tokenOut amountIn =
     (case checked_mul amountIn 95 of Inl err \<Rightarrow> Inl err | Inr m \<Rightarrow> checked_div m 100)"

text \<open>\<open>_executeSwap\<close>: a transfer of the input token from the handler to itself.\<close>

definition executeSwap ::
  "evm \<Rightarrow> address \<Rightarrow> address \<Rightarrow> uint256 \<Rightarrow> uint256 \<Rightarrow> handler \<Rightarrow> error + handler" where
  "executeSwap X tokenIn tokenOut amountIn amountOut s =
     (if erc20_safeTransfer X tokenIn (h_this s) amountIn then Inr s
      else Inl (Revert ''SafeERC20: low-level call failed''))"

text \<open>\<open>executeHedgingTrade\<close>: \<open>onlyAuthorized\<close>, \<open>whenNotPaused\<close>, \<open>nonReentrant\<close>.\<close>

definition executeHedgingTrade ::
  "evm \<Rightarrow> env \<Rightarrow> bytes32 \<Rightarrow> address \<Rightarrow> address \<Rightarrow> uint256 \<Rightarrow> uint256 \<Rightarrow> handler
     \<Rightarrow> error + handler \<times> (uint256 \<times> bytes32)" where
  "executeHedgingTrade X e positionId tokenIn tokenOut amountIn minAmountOut s =
     (if msg_value e \<noteq> 0 then Inl (Revert [])
      else if \<not> authorizedCallers s (msg_sender e) then Inl (Revert ''Not authorized caller'')
      else if h_paused s then Inl (Revert ''Pausable: paused'')
      else if h_entered s then Inl (Revert ''ReentrancyGuard: reentrant call'')
      else let s1 = s\<lparr> h_entered := True \<rparr> in
        if \<not> (tokenIn \<noteq> 0 \<and> tokenOut \<noteq> 0) then Inl (Revert ''Invalid token addresses'')
        else if \<not> tokenIn \<noteq> tokenOut then Inl (Revert ''Tokens must be different'')
        else if \<not> amountIn > 0 then Inl (Revert ''Invalid amount'')
        else if \<not> minAmountOut > 0 then Inl (Revert ''Invalid min amount'')
        else case erc20_balanceOf X tokenIn (h_this s1) of
          None \<Rightarrow> Inl (Revert [])
        | Some bal \<Rightarrow>
            if \<not> bal \<ge> amountIn then Inl (Revert ''Insufficient balance'')
            else case calculateSwapOutput tokenIn tokenOut amountIn of
              Inl err \<Rightarrow> Inl err
            | Inr amountOut \<Rightarrow>
                if \<not> amountOut \<ge> minAmountOut then Inl (Revert ''Slippage too high'')
                else case executeSwap X tokenIn tokenOut amountIn amountOut s1 of
                  Inl err \<Rightarrow> Inl err
                | Inr s2 \<Rightarrow>
                    let txHash = keccak256 X
                          (bytes_of_uint 32 positionId @ bytes_of_uint 20 tokenIn
                           @ bytes_of_uint 20 tokenOut @ bytes_of_uint 32 amountIn
                           @ bytes_of_uint 32 amountOut @ bytes_of_uint 32 (block_timestamp e))
                    in Inr (s2\<lparr> h_events := h_events s2 @ [HedgingTradeExecuted positionId
                                  tokenIn tokenOut amountIn amountOut txHash],
                                h_entered := False \<rparr>,
                            (amountOut, txHash)))"

text \<open>\<open>_executePartialUnwind\<close> and \<open>_executeRebalance\<close>: placeholders that succeed.\<close>

definition executePartialUnwind :: "bytes32 \<Rightarrow> uint256 \<Rightarrow> handler \<Rightarrow> handler \<times> bool" where
  "executePartialUnwind positionId amount s = (s, True)"

definition executeRebalance :: "bytes32 \<Rightarrow> uint256 \<Rightarrow> handler \<Rightarrow> handler \<times> bool" where
  "executeRebalance positionId amount s = (s, True)"

text \<open>\<open>executeRebalancing\<close>: \<open>onlyAuthorized\<close>, \<open>whenNotPaused\<close>, \<open>nonReentrant\<close>.\<close>

definition executeRebalancing ::
  "evm \<Rightarrow> env \<Rightarrow> bytes32 \<Rightarrow> string \<Rightarrow> uint256 \<Rightarrow> handler \<Rightarrow> error + handler \<times> (bool \<times> bytes32)" where
  "executeRebalancing X e positionId actionType' amount s =
     (if msg_value e \<noteq> 0 then Inl (Revert [])
      else if \<not> authorizedCallers s (msg_sender e) then Inl (Revert ''Not authorized caller'')
      else if h_paused s then Inl (Revert ''Pausable: paused'')
      else if h_entered s then Inl (Revert ''ReentrancyGuard: reentrant call'')
      else let s1 = s\<lparr> h_entered := True \<rparr> in
        if \<not> amount > 0 then Inl (Revert ''Invalid amount'')
        else if \<not> length (bytes_of_string actionType') > 0 then Inl (Revert ''Invalid action type'')
        else case
          (if keccak256 X (bytes_of_string actionType')
                = keccak256 X (bytes_of_string ''partial_unwind'')
             then Inr (executePartialUnwind positionId amount s1)
           else if keccak256 X (bytes_of_string actionType')
                = keccak256 X (bytes_of_string ''rebalance'')
             then Inr (executeRebalance positionId amount s1)
           else Inl (Revert ''Unsupported action type'')) of
          Inl err \<Rightarrow> Inl err
        | Inr (s2, success) \<Rightarrow>
            let txHash = keccak256 X
                  (bytes_of_uint 32 positionId @ bytes_of_string actionType'
                   @ bytes_of_uint 32 amount @ bytes_of_uint 32 (block_timestamp e))
            in Inr (s2\<lparr> h_events := h_events s2
                          @ [RebalancingExecuted positionId actionType' amount txHash],
                        h_entered := False \<rparr>,
                    (success, txHash)))"

text \<open>
  \<open>validateCallback\<close>: the signer of the Ethereum signed message over
  \<open>keccak256(abi.encodePacked(positionId, block.chainid))\<close> must be an authorized caller.
\<close>

definition toEthSignedMessageHash :: "evm \<Rightarrow> bytes32 \<Rightarrow> bytes32" where
  "toEthSignedMessageHash X h =
     keccak256 X (0x19 # bytes_of_string ''Ethereum Signed Message:'' @ [0x0a]
                  @ bytes_of_string ''32'' @ bytes_of_uint 32 h)"

definition validateCallback :: "evm \<Rightarrow> env \<Rightarrow> bytes32 \<Rightarrow> bytes \<Rightarrow> handler \<Rightarrow> error + bool" where
  "validateCallback X e positionId signature s =
     (let messageHash = keccak256 X
            (bytes_of_uint 32 positionId @ bytes_of_uint 32 (block_chainid e));
          ethSignedMessageHash = toEthSignedMessageHash X messageHash
      in case ecdsa_recover X ethSignedMessageHash signature of
           Inl err \<Rightarrow> Inl err
         | Inr signer \<Rightarrow> Inr (authorizedCallers s signer))"

text \<open>\<open>processCallback\<close>: \<open>onlyAuthorized\<close>; the two execute functions bring their own modifiers.\<close>

definition processCallback ::
  "evm \<Rightarrow> env \<Rightarrow> bytes32 \<Rightarrow> bytes32 \<Rightarrow> bytes \<Rightarrow> bytes \<Rightarrow> handler \<Rightarrow> error + handler \<times> bool" where
  "processCallback X e callbackId positionId actionData signature s =
     (if msg_value e \<noteq> 0 then Inl (Revert [])
      else if \<not> authorizedCallers s (msg_sender e) then Inl (Revert ''Not authorized caller'')
      else if \<not> \<not> processedCallbacks s callbackId then Inl (Revert ''Callback already processed'')
      else case validateCallback X e positionId signature s of
        Inl err \<Rightarrow> Inl err
      | Inr isValid \<Rightarrow>
          if \<not> isValid then Inl (Revert ''Invalid callback signature'')
          else let s1 = s\<lparr> processedCallbacks := (processedCallbacks s)(callbackId := True) \<rparr> in
            case abi_decode_action actionData of
              Inl err \<Rightarrow> Inl err
            | Inr (actionType', amount, token) \<Rightarrow>
                (case
                   (if keccak256 X (bytes_of_string actionType')
                         = keccak256 X (bytes_of_string ''hedge'')
                    then case checked_mul amount 95 of
                           Inl err \<Rightarrow> Inl err
                         | Inr m \<Rightarrow>
                             (case checked_div m 100 of
                                Inl err \<Rightarrow> Inl err
                              | Inr minOut \<Rightarrow>
                                  (case executeHedgingTrade X e positionId token 0 amount minOut s1 of
                                     Inl err \<Rightarrow> Inl err
                                   | Inr (s2, (amountOut, txHash)) \<Rightarrow> Inr (s2, amountOut > 0)))
                    else case executeRebalancing X e positionId actionType' amount s1 of
                           Inl err \<Rightarrow> Inl err
                         | Inr (s2, (success, txHash)) \<Rightarrow> Inr (s2, success)) of
                   Inl err \<Rightarrow> Inl err
                 | Inr (s2, success) \<Rightarrow>
                     Inr (s2\<lparr> h_events := h_events s2 @ [CallbackProcessed callbackId success] \<rparr>,
                          success)))"

definition updateAuthorizedCaller :: "env \<Rightarrow> address \<Rightarrow> bool \<Rightarrow> handler \<Rightarrow> error + handler" where
  "updateAuthorizedCaller e caller authorized s =
     (if msg_value e \<noteq> 0 then Inl (Revert [])
      else if h_owner s \<noteq> msg_sender e then Inl (Revert ''Ownable: caller is not the owner'')
      else Inr (s\<lparr> authorizedCallers := (authorizedCallers s)(caller := authorized),
                   h_events := h_events s @ [AuthorizedCallerUpdated caller authorized] \<rparr>))"

definition handler_pause :: "env \<Rightarrow> handler \<Rightarrow> error + handler" where
  "handler_pause e s =
     (if msg_value e \<noteq> 0 then Inl (Revert [])
      else if h_owner s \<noteq> msg_sender e then Inl (Revert ''Ownable: caller is not the owner'')
      else if h_paused s then Inl (Revert ''Pausable: paused'')
      else Inr (s\<lparr> h_paused := True, h_events := h_events s @ [HandlerPaused (msg_sender e)] \<rparr>))"

definition handler_unpause :: "env \<Rightarrow> handler \<Rightarrow> error + handler" where
  "handler_unpause e s =
     (if msg_value e \<noteq> 0 then Inl (Revert [])
      else if h_owner s \<noteq> msg_sender e then Inl (Revert ''Ownable: caller is not the owner'')
      else if \<not> h_paused s then Inl (Revert ''Pausable: not paused'')
      else Inr (s\<lparr> h_paused := False, h_events := h_events s @ [HandlerUnpaused (msg_sender e)] \<rparr>))"

text \<open>\<open>emergencyWithdraw\<close>: \<open>onlyOwner\<close>; a token transfer to the owner, no storage written.\<close>

definition emergencyWithdraw :: "evm \<Rightarrow> env \<Rightarrow> address \<Rightarrow> uint256 \<Rightarrow> handler \<Rightarrow> error + handler" where
  "emergencyWithdraw X e token amount s =
     (if msg_value e \<noteq> 0 then Inl (Revert [])
      else if h_owner s \<noteq> msg_sender e then Inl (Revert ''Ownable: caller is not the owner'')
      else if erc20_safeTransfer X token (h_owner s) amount then Inr s
      else Inl (Revert ''SafeERC20: low-level call failed''))"

text \<open>
  The two functions the handler inherits from OpenZeppelin's \<open>Ownable\<close> (version 4, as the
  import paths and the argument-free constructor show): \<open>transferOwnership\<close> and
  \<open>renounceOwnership\<close>, both \<open>onlyOwner\<close>.
\<close>

definition handler_transferOwnership :: "env \<Rightarrow> address \<Rightarrow> handler \<Rightarrow> error + handler" where
  "handler_transferOwnership e newOwner s =
     (if msg_value e \<noteq> 0 then Inl (Revert [])
      else if h_owner s \<noteq> msg_sender e then Inl (Revert ''Ownable: caller is not the owner'')
      else if \<not> newOwner \<noteq> 0 then Inl (Revert ''Ownable: new owner is the zero address'')
      else Inr (s\<lparr> h_owner := newOwner,
                   h_events := h_events s @ [OwnershipTransferred (h_owner s) newOwner] \<rparr>))"

definition handler_renounceOwnership :: "env \<Rightarrow> handler \<Rightarrow> error + handler" where
  "handler_renounceOwnership e s =
     (if msg_value e \<noteq> 0 then Inl (Revert [])
      else if h_owner s \<noteq> msg_sender e then Inl (Revert ''Ownable: caller is not the owner'')
      else Inr (s\<lparr> h_owner := 0,
                   h_events := h_events s @ [OwnershipTransferred (h_owner s) 0] \<rparr>))"

text \<open>
  Every function of the handler that a transaction can call, and the state one such call
  leaves behind; \<open>handler_run\<close> is the state after a sequence of transactions, each with
  its own environment and its own behaviour of the token contracts.
\<close>

datatype handler_call =
    ExecuteHedgingTrade bytes32 address address uint256 uint256
  | ExecuteRebalancing bytes32 string uint256
  | ValidateCallback bytes32 bytes
  | ProcessCallback bytes32 bytes32 bytes bytes
  | UpdateAuthorizedCaller address bool
  | HandlerPause
  | HandlerUnpause
  | EmergencyWithdraw address uint256
  | TransferOwnership address
  | RenounceOwnership

fun handler_step :: "evm \<Rightarrow> env \<Rightarrow> handler_call \<Rightarrow> handler \<Rightarrow> handler" where
  "handler_step X e (ExecuteHedgingTrade positionId tokenIn tokenOut amountIn minAmountOut) s =
     after_ret s (executeHedgingTrade X e positionId tokenIn tokenOut amountIn minAmountOut s)"
| "handler_step X e (ExecuteRebalancing positionId actionType' amount) s =
     after_ret s (executeRebalancing X e positionId actionType' amount s)"
| "handler_step X e (ValidateCallback positionId signature) s = s"
| "handler_step X e (ProcessCallback callbackId positionId actionData signature) s =
     after_ret s (processCallback X e callbackId positionId actionData signature s)"
| "handler_step X e (UpdateAuthorizedCaller caller authorized) s =
     after s (updateAuthorizedCaller e caller authorized s)"
| "handler_step X e HandlerPause s = after s (handler_pause e s)"
| "handler_step X e HandlerUnpause s = after s (handler_unpause e s)"
| "handler_step X e (EmergencyWithdraw token amount) s =
     after s (emergencyWithdraw X e token amount s)"
| "handler_step X e (TransferOwnership newOwner) s = after s (handler_transferOwnership e newOwner s)"
| "handler_step X e RenounceOwnership s = after s (handler_renounceOwnership e s)"

fun handler_run :: "(evm \<times> env \<times> handler_call) list \<Rightarrow> handler \<Rightarrow> handler" where
  "handler_run [] s = s"
| "handler_run ((X, e, c) # cs) s = handler_run cs (handler_step X e c s)"

section \<open>OriginPosition\<close>

record OriginPos =
  o_user :: address
  token0 :: address
  token1 :: address
  amount0 :: uint256
  amount1 :: uint256
  currentPrice :: uint256
  liquidity :: uint256
  o_createdAt :: uint256
  o_isActive :: bool

datatype origin_event =
    PriceUpdate bytes32 uint256 uint256 int256
  | LiquidityUpdate bytes32 uint256 uint256 int256

record origin =
  o_owner :: address
  o_paused :: bool
  o_positions :: "bytes32 \<Rightarrow> OriginPos"
  o_totalPositions :: uint256
  o_events :: "origin_event list"

definition PRICE_PRECISION :: uint256 where
  "PRICE_PRECISION = 10 ^ 18"

definition MAX_PRICE_CHANGE :: uint256 where
  "MAX_PRICE_CHANGE = 50 * 10 ^ 16"

text \<open>The private helper \<open>abs\<close> on \<open>int256\<close>.\<close>

definition abs_int256 :: "int256 \<Rightarrow> error + int256" where
  "abs_int256 x = (if sint x \<ge> 0 then Inr x else checked_neg x)"

text \<open>
  The price change of \<open>updatePrice\<close>: the unsigned quotient is computed with checked
  arithmetic and then read as an \<open>int256\<close> (a conversion that does not check), with a
  checked minus on the falling branch.
\<close>

definition priceChange_of :: "uint256 \<Rightarrow> uint256 \<Rightarrow> error + int256" where
  "priceChange_of oldPrice newPrice =
     (if newPrice > oldPrice then
        case checked_sub newPrice oldPrice of Inl err \<Rightarrow> Inl err | Inr d \<Rightarrow>
        case checked_mul d PRICE_PRECISION of Inl err \<Rightarrow> Inl err | Inr m \<Rightarrow>
          checked_div m oldPrice
      else
        case checked_sub oldPrice newPrice of Inl err \<Rightarrow> Inl err | Inr d \<Rightarrow>
        case checked_mul d PRICE_PRECISION of Inl err \<Rightarrow> Inl err | Inr m \<Rightarrow>
        case checked_div m oldPrice of Inl err \<Rightarrow> Inl err | Inr q \<Rightarrow>
          checked_neg q)"

text \<open>\<open>updatePrice\<close>: not payable, \<open>onlyOwner\<close>.\<close>

definition updatePrice :: "env \<Rightarrow> bytes32 \<Rightarrow> uint256 \<Rightarrow> origin \<Rightarrow> error + origin" where
  "updatePrice e positionId newPrice s =
     (if msg_value e \<noteq> 0 then Inl (Revert [])
      else if o_owner s \<noteq> msg_sender e then Inl (Revert ''Ownable: caller is not the owner'')
      else if \<not> o_isActive (o_positions s positionId) then Inl (Revert ''Position not active'')
      else if \<not> newPrice > 0 then Inl (Revert ''Invalid price'')
      else let oldPrice = currentPrice (o_positions s positionId) in
        case priceChange_of oldPrice newPrice of
          Inl err \<Rightarrow> Inl err
        | Inr priceChange \<Rightarrow>
            (case abs_int256 priceChange of
               Inl err \<Rightarrow> Inl err
             | Inr a \<Rightarrow>
                 if \<not> a \<le> MAX_PRICE_CHANGE then Inl (Revert ''Price change too large'')
                 else Inr (s\<lparr> o_positions := (o_positions s)(positionId :=
                                 (o_positions s positionId)\<lparr> currentPrice := newPrice \<rparr>),
                              o_events := o_events s
                                @ [PriceUpdate positionId oldPrice newPrice priceChange] \<rparr>)))"

text \<open>
  The signed relative change as the specification writes it, on the integers, with the
  quotient truncated towards zero: \<open>(newPrice - oldPrice) * 10^18 / oldPrice\<close>.
\<close>

definition spec_price_delta :: "int \<Rightarrow> int \<Rightarrow> int" where
  "spec_price_delta oldPrice newPrice = ((newPrice - oldPrice) * 10 ^ 18) sdiv oldPrice"

section \<open>A concrete instance\<close>

text \<open>
  Values on which the model is run in the examples below: a stand-in hash (a polynomial in
  the bytes), a stand-in signature scheme (the first 32 bytes of a 65-byte signature are
  the digest plus the signer's address), token calls that succeed, one monitored position
  of Alice's with threshold 0.2 and gas budget 0.1 (scale \<open>10^18\<close>), and a handler whose
  allow-list holds its owner and the relayer.
\<close>

definition demo_keccak256 :: "bytes \<Rightarrow> bytes32" where
  "demo_keccak256 bs = foldl (\<lambda>h b. h * 257 + ucast b + 1) 0 bs"

definition demo_recover :: "bytes32 \<Rightarrow> bytes \<Rightarrow> error + address" where
  "demo_recover h sg =
     (if length sg \<noteq> 65 then Inl (Revert ''ECDSA: invalid signature length'')
      else Inr (ucast (uint_of_bytes (take 32 sg) - h)))"

definition demo_evm :: evm where
  "demo_evm = \<lparr> keccak256 = demo_keccak256, ecdsa_recover = demo_recover,
                erc20_balanceOf = (\<lambda>tok holder. Some 1000),
                erc20_safeTransfer = (\<lambda>tok to amount. True) \<rparr>"

definition alice :: address where "alice = 0xA11CE"
definition admin :: address where "admin = 0xAD"
definition relayer :: address where "relayer = 0xBEEF"
definition mallory :: address where "mallory = 0xBAD"

definition call_env :: "address \<Rightarrow> uint256 \<Rightarrow> env" where
  "call_env sender val = \<lparr> msg_sender = sender, msg_value = val, block_timestamp = 2000,
                            block_number = 10, block_chainid = 1597 \<rparr>"

definition demo_position :: Position where
  "demo_position = \<lparr> user = alice, originChainId = 1597, originContract = 0xC0,
     originToken = 0, positionIdentifier = ''test-position'', threshold = 2 * 10 ^ 17,
     actionType = ''rebalance'', gasBudget = 10 ^ 17, isActive = True, createdAt = 1000,
     lastTriggered = 0 \<rparr>"

definition demo_manager :: manager where
  "demo_manager = \<lparr> m_owner = admin, m_paused = False, m_entered = False,
     positions = (\<lambda>_. zero_Position)(7 := demo_position),
     userPositions = (\<lambda>_. [])(alice := [7]),
     processedEvents = (\<lambda>_. False),
     originPositionContract = 0xC0, destinationHandlerContract = 0xD0,
     destinationChainId = 1597,
     totalPositions = 1, totalReactiveActions = 0, totalGasUsed = 0,
     m_balance = 10 ^ 17, m_events = [] \<rparr>"

text \<open>A price-update payload for position \<open>pid\<close>: signature, position id, three words.\<close>

definition price_log :: "bytes32 \<Rightarrow> uint256 \<Rightarrow> uint256 \<Rightarrow> int256 \<Rightarrow> bytes" where
  "price_log pid oldPrice newPrice priceChange =
     bytes_of_uint 32 (PRICE_UPDATE_SIGNATURE demo_evm) @ bytes_of_uint 32 pid
       @ abi_encode_words3 oldPrice newPrice priceChange"

text \<open>A liquidity-update payload for position \<open>pid\<close>, laid out the same way.\<close>

definition liquidity_log :: "bytes32 \<Rightarrow> uint256 \<Rightarrow> uint256 \<Rightarrow> int256 \<Rightarrow> bytes" where
  "liquidity_log pid oldLiquidity newLiquidity liquidityChange =
     bytes_of_uint 32 (LIQUIDITY_UPDATE_SIGNATURE demo_evm) @ bytes_of_uint 32 pid
       @ abi_encode_words3 oldLiquidity newLiquidity liquidityChange"

text \<open>The price-update payload for position 8, which nobody registered.\<close>

definition unknown_log :: bytes where
  "unknown_log = price_log 8 (2 * 10 ^ 18) (25 * 10 ^ 17) (25 * 10 ^ 16)"

definition demo_handler :: handler where
  "demo_handler = \<lparr> h_this = 0xD0, h_owner = admin, h_paused = False, h_entered = False,
     processedCallbacks = (\<lambda>_. False),
     authorizedCallers = (\<lambda>_. False)(admin := True, relayer := True),
     h_events = [] \<rparr>"

text \<open>The relayer's signature for position 7 on chain 1597 under the stand-in scheme.\<close>

definition demo_signature :: bytes where
  "demo_signature =
     bytes_of_uint 32
       (toEthSignedMessageHash demo_evm
          (demo_keccak256 (bytes_of_uint 32 (7 :: uint256) @ bytes_of_uint 32 (1597 :: uint256)))
        + ucast relayer)
     @ replicate 33 0"

text \<open>
  Four later transactions on the handler: the relayer's rebalance callback with id 2, then
  the owner pauses the handler, puts Mallory on the allow-list and lifts the pause.
\<close>

definition later_calls :: "(evm \<times> env \<times> handler_call) list" where
  "later_calls =
     [(demo_evm, call_env relayer 0,
         ProcessCallback 2 7 (abi_encode_action ''rebalance'' 5 0) demo_signature),
      (demo_evm, call_env admin 0, HandlerPause),
      (demo_evm, call_env admin 0, UpdateAuthorizedCaller mallory True),
      (demo_evm, call_env admin 0, HandlerUnpause)]"

definition demo_origin :: "uint256 \<Rightarrow> origin" where
  "demo_origin price = \<lparr> o_owner = admin, o_paused = False,
     o_positions = (\<lambda>_. \<lparr> o_user = 0, token0 = 0, token1 = 0, amount0 = 0, amount1 = 0,
                           currentPrice = 0, liquidity = 0, o_createdAt = 0,
                           o_isActive = False \<rparr>)
       (1 := \<lparr> o_user = alice, token0 = 0xA0, token1 = 0xB0, amount0 = 1, amount1 = 1,
               currentPrice = price, liquidity = 2, o_createdAt = 1000, o_isActive = True \<rparr>),
     o_totalPositions = 1, o_events = [] \<rparr>"

section \<open>Basic facts\<close>

lemma isl_after: "isl r \<Longrightarrow> after s r = s"
  by (cases r) (simp_all add: after_def)

lemma isl_after_ret: "isl r \<Longrightarrow> after_ret s r = s"
  by (cases r) (simp_all add: after_ret_def)

lemma after_Inr: "after s (Inr s') = s'"
  by (simp add: after_def)

lemma after_ret_Inr: "after_ret s (Inr (s', v)) = s'"
  by (simp add: after_ret_def)

lemmas demo_defs = demo_manager_def demo_position_def call_env_def alice_def admin_def
  relayer_def zero_Position_def

subsection \<open>Words and their bytes\<close>

lemma length_bytes_of_uint: "length (bytes_of_uint n w) = n"
  by (simp add: bytes_of_uint_def)

lemma ucast_byte: "(ucast (ucast (x::uint256) :: 8 word) :: uint256) = take_bit 8 x"
  by (rule bit_word_eqI) (auto simp: bit_simps)

lemma byte_step: "drop_bit 8 (x::uint256) * 256 + ucast (ucast x :: 8 word) = x"
proof -
  have "push_bit 8 (drop_bit 8 x) + take_bit 8 x = x" by (rule bits_ident)
  then show ?thesis by (simp add: push_bit_eq_mult ucast_byte)
qed

lemma foldl_bytes:
  "k \<le> 32 \<Longrightarrow> foldl (\<lambda>acc b. acc * 256 + ucast b) (0::uint256)
      (map (\<lambda>i. (ucast (drop_bit (8 * (32 - 1 - i)) (w::uint256)) :: 8 word)) [0..<k])
    = drop_bit (8 * (32 - k)) w"
proof (induction k)
  case 0
  then show ?case by (simp add: drop_bit_word_beyond)
next
  case (Suc k)
  then have k: "k < 32" by simp
  have eq: "8 * (32 - k) = 8 + 8 * (31 - k)" using k by simp
  have "drop_bit (8 * (32 - k)) w = drop_bit 8 (drop_bit (8 * (31 - k)) w)"
    unfolding eq by (simp add: drop_bit_drop_bit add.commute)
  with Suc k show ?case
    using byte_step [of "drop_bit (8 * (31 - k)) w"] by simp
qed

lemma uint_of_bytes_of_uint: "uint_of_bytes (bytes_of_uint 32 (w::uint256)) = w"
  using foldl_bytes [of 32 w] by (simp add: uint_of_bytes_def bytes_of_uint_def)

lemma parseLog_encoded:
  "parseLog (bytes_of_uint 32 (sg::uint256) @ bytes_of_uint 32 (pid::uint256) @ d)
     = Inr (sg, pid, d)"
  by (simp add: parseLog_def length_bytes_of_uint uint_of_bytes_of_uint)

lemma abi_decode_encode_words3:
  "abi_decode_words3 (abi_encode_words3 a b c) = Inr (a, b, c)"
  by (simp add: abi_decode_words3_def abi_encode_words3_def length_bytes_of_uint
      uint_of_bytes_of_uint)

lemma ucast_address_roundtrip: "(ucast (ucast (a::address) :: uint256) :: address) = a"
  by (simp add: ucast_up_ucast_id is_up)

lemma char_byte_roundtrip: "char_of (unat (of_char c :: 8 word)) = c"
proof -
  have "(of_char c :: 8 word) = of_nat (of_char c)"
    by (simp add: of_nat_of_char)
  then have "unat (of_char c :: 8 word) = of_char c mod 256"
    by (simp add: unat_of_nat)
  then show ?thesis by simp
qed

lemma string_of_bytes_of_string: "string_of_bytes (bytes_of_string str) = str"
  by (induction str) (simp_all add: string_of_bytes_def bytes_of_string_def char_byte_roundtrip)


lemma unat_of_nat_small: "n < 2 ^ 64 \<Longrightarrow> unat (of_nat n :: uint256) = n"
  by (simp add: unat_of_nat)

lemma of_nat_small_le: "n < 2 ^ 64 \<Longrightarrow> (of_nat n :: uint256) \<le> 0xffffffffffffffff"
  by (simp add: word_le_nat_alt unat_of_nat_small)

lemma abi_decode_encode_action:
  assumes "length str < 2 ^ 64"
  shows "abi_decode_action (abi_encode_action str amount tok) = Inr (str, amount, tok)"
proof -
  have n: "unat (of_nat (length str) :: uint256) = length str"
    using assms by (rule unat_of_nat_small)
  have le: "\<not> (0xffffffffffffffff :: uint256) < of_nat (length str)"
    using of_nat_small_le [OF assms] by (simp add: not_less)
  show ?thesis
    using n le
    by (simp add: abi_decode_action_def abi_encode_action_def abi_encode_dyn_def
        length_bytes_of_uint uint_of_bytes_of_uint Let_def bytes_of_string_def
        ucast_address_roundtrip
        string_of_bytes_of_string [unfolded bytes_of_string_def])
qed

section \<open>Gas budget updates\<close>

text \<open>
  C9. On an active position and called by its owner, \<open>updateGasBudget(id, B)\<close> with a
  payment strictly below \<open>B\<close> fails with "Insufficient gas payment" and the position's
  gas budget keeps its prior value; with \<open>B > 0\<close> and a payment of at least \<open>B\<close> it
  succeeds and the gas budget is \<open>B\<close>.
\<close>

theorem updateGasBudget_payment:
  assumes "isActive (positions s positionId)"
    and "user (positions s positionId) = msg_sender e"
  shows "(msg_value e < B \<longrightarrow>
            updateGasBudget e positionId B s = Inl (Revert ''Insufficient gas payment'')
            \<and> gasBudget (positions (after s (updateGasBudget e positionId B s)) positionId)
                = gasBudget (positions s positionId))
       \<and> (0 < B \<and> B \<le> msg_value e \<longrightarrow>
            (\<exists>s'. updateGasBudget e positionId B s = Inr s')
            \<and> gasBudget (positions (after s (updateGasBudget e positionId B s)) positionId) = B)"
proof -
  have pos: "0 < B" if "msg_value e < B"
    using that by (metis not_less word_le_0_iff word_not_simps(1) word_gt_0)
  show ?thesis
    using assms pos by (auto simp: updateGasBudget_def after_def not_le not_less)
qed

theorem updateGasBudget_payment_witness:
  "updateGasBudget (call_env alice (10 ^ 17)) 7 (2 * 10 ^ 17) demo_manager
     = Inl (Revert ''Insufficient gas payment'')
   \<and> gasBudget (positions (after demo_manager
        (updateGasBudget (call_env alice (10 ^ 17)) 7 (2 * 10 ^ 17) demo_manager)) 7) = 10 ^ 17
   \<and> gasBudget (positions (after demo_manager
        (updateGasBudget (call_env alice (2 * 10 ^ 17)) 7 (2 * 10 ^ 17) demo_manager)) 7)
       = 2 * 10 ^ 17"
proof -
  have a: "isActive (positions demo_manager 7)"
    by (simp add: demo_defs)
  have u: "user (positions demo_manager 7) = msg_sender (call_env alice v)" for v
    by (simp add: demo_defs)
  have lt: "msg_value (call_env alice (10 ^ 17)) < 2 * 10 ^ 17"
    by (simp add: call_env_def)
  have ge: "(0::uint256) < 2 * 10 ^ 17 \<and> 2 * 10 ^ 17 \<le> msg_value (call_env alice (2 * 10 ^ 17))"
    by (simp add: call_env_def)
  show ?thesis
    using updateGasBudget_payment [OF a u, of "10 ^ 17" "2 * 10 ^ 17"]
      updateGasBudget_payment [OF a u, of "2 * 10 ^ 17" "2 * 10 ^ 17"] lt ge
    by (simp add: demo_defs after_def)
qed

text \<open>
  C2. The claim: every operation that changes a position's gas budget rejects a payment
  below the new budget. \<open>updateGasBudget\<close> and \<open>createPosition\<close> check the payment;
  \<open>updatePosition\<close> does not. Run on the example: Alice, paying nothing, raises the
  budget of her position from 0.1 to 1.0 through \<open>updatePosition\<close>.
\<close>

theorem updatePosition_unpaid_budget:
  "updatePosition (call_env alice 0) 7 (2 * 10 ^ 17) ''rebalance'' (10 ^ 18) demo_manager
     = Inr (demo_manager\<lparr> positions := (positions demo_manager)(7 := demo_position
               \<lparr> threshold := 2 * 10 ^ 17, actionType := ''rebalance'', gasBudget := 10 ^ 18 \<rparr>),
             m_events := [PositionUpdated 7 (2 * 10 ^ 17) ''rebalance''] \<rparr>)
   \<and> gasBudget (positions demo_manager 7) = 10 ^ 17
   \<and> gasBudget (positions (after demo_manager
        (updatePosition (call_env alice 0) 7 (2 * 10 ^ 17) ''rebalance'' (10 ^ 18) demo_manager)) 7)
       = 10 ^ 18"
  by (simp add: updatePosition_def after_def demo_defs bytes_of_string_def)

section \<open>The pause switch\<close>




lemma executeHedgingTrade_unauth:
  "\<not> authorizedCallers h (msg_sender e) \<Longrightarrow> isl (executeHedgingTrade X e pid ti to ai mo h)"
  by (simp add: executeHedgingTrade_def)

lemma executeRebalancing_unauth:
  "\<not> authorizedCallers h (msg_sender e) \<Longrightarrow> isl (executeRebalancing X e pid at am h)"
  by (simp add: executeRebalancing_def)

lemma processCallback_unauth:
  "\<not> authorizedCallers h (msg_sender e) \<Longrightarrow> isl (processCallback X e cb pid ad sg h)"
  by (simp add: processCallback_def)




section \<open>Who may call what\<close>

text \<open>
  C8, as claimed: only the position owner may deactivate a monitored position. It is not
  so: \<open>deactivatePosition\<close> also accepts the contract owner, and on the example the
  admin, who is not the position's owner, deactivates Alice's position.
\<close>

theorem admin_deactivates:
  "msg_sender (call_env admin 0) \<noteq> user (positions demo_manager 7)
   \<and> deactivatePosition (call_env admin 0) 7 demo_manager
       = Inr (demo_manager\<lparr>
                positions := (positions demo_manager)(7 := demo_position\<lparr> isActive := False \<rparr>),
                m_events := [PositionDeactivated 7 alice] \<rparr>)
   \<and> \<not> isActive (positions (after demo_manager
         (deactivatePosition (call_env admin 0) 7 demo_manager)) 7)"
  by (simp add: deactivatePosition_def after_def demo_defs)

text \<open>
  C8, amended. A caller who is not the position's owner is rejected by \<open>updatePosition\<close>
  and \<open>updateGasBudget\<close>; a caller who is neither the position's owner nor the contract
  owner is rejected by \<open>deactivatePosition\<close>; a caller other than the Reactive Network
  address is rejected by \<open>react\<close>; a caller outside the allow-list is rejected by
  \<open>executeHedgingTrade\<close>, \<open>executeRebalancing\<close> and \<open>processCallback\<close>. Every such
  rejected call leaves the state as it was.
\<close>

theorem only_authorized_callers:
  "(msg_sender e \<noteq> user (positions s pid) \<longrightarrow>
      isl (updatePosition e pid thr at gb s)
      \<and> after s (updatePosition e pid thr at gb s) = s
      \<and> isl (updateGasBudget e pid gb s)
      \<and> after s (updateGasBudget e pid gb s) = s)
   \<and> (msg_sender e \<noteq> user (positions s pid) \<and> msg_sender e \<noteq> m_owner s \<longrightarrow>
      isl (deactivatePosition e pid s)
      \<and> after s (deactivatePosition e pid s) = s)
   \<and> (msg_sender e \<noteq> REACTIVE_SYSTEM \<longrightarrow>
      isl (react X e log s)
      \<and> after s (react X e log s) = s)
   \<and> (\<not> authorizedCallers h (msg_sender e) \<longrightarrow>
      isl (executeHedgingTrade X e pid ti to ai mo h)
      \<and> after_ret h (executeHedgingTrade X e pid ti to ai mo h) = h
      \<and> isl (executeRebalancing X e pid at am h)
      \<and> after_ret h (executeRebalancing X e pid at am h) = h
      \<and> isl (processCallback X e cb pid ad sg h)
      \<and> after_ret h (processCallback X e cb pid ad sg h) = h)"
proof (intro conjI impI)
  assume n: "msg_sender e \<noteq> user (positions s pid)"
  show a: "isl (updatePosition e pid thr at gb s)"
    using n by (auto simp: updatePosition_def)
  show "after s (updatePosition e pid thr at gb s) = s"
    using a by (rule isl_after)
  show b: "isl (updateGasBudget e pid gb s)"
    using n by (auto simp: updateGasBudget_def)
  show "after s (updateGasBudget e pid gb s) = s"
    using b by (rule isl_after)
next
  assume n: "msg_sender e \<noteq> user (positions s pid) \<and> msg_sender e \<noteq> m_owner s"
  show a: "isl (deactivatePosition e pid s)"
    using n by (auto simp: deactivatePosition_def)
  show "after s (deactivatePosition e pid s) = s"
    using a by (rule isl_after)
next
  assume n: "msg_sender e \<noteq> REACTIVE_SYSTEM"
  show a: "isl (react X e log s)"
    using n by (simp add: react_def)
  show "after s (react X e log s) = s"
    using a by (rule isl_after)
next
  assume n: "\<not> authorizedCallers h (msg_sender e)"
  show "isl (executeHedgingTrade X e pid ti to ai mo h)"
    using n by (rule executeHedgingTrade_unauth)
  then show "after_ret h (executeHedgingTrade X e pid ti to ai mo h) = h"
    by (rule isl_after_ret)
  show "isl (executeRebalancing X e pid at am h)"
    using n by (rule executeRebalancing_unauth)
  then show "after_ret h (executeRebalancing X e pid at am h) = h"
    by (rule isl_after_ret)
  show "isl (processCallback X e cb pid ad sg h)"
    using n by (rule processCallback_unauth)
  then show "after_ret h (processCallback X e cb pid ad sg h) = h"
    by (rule isl_after_ret)
qed

theorem only_authorized_callers_witness:
  "isl (updatePosition (call_env mallory 0) 7 (10 ^ 17) ''hedge'' (10 ^ 18) demo_manager)
   \<and> isl (updateGasBudget (call_env mallory 1) 7 1 demo_manager)
   \<and> isl (deactivatePosition (call_env mallory 0) 7 demo_manager)
   \<and> isl (react demo_evm (call_env mallory 0) (price_log 7 2 3 (5 * 10 ^ 17)) demo_manager)
   \<and> isl (executeHedgingTrade demo_evm (call_env mallory 0) 7 0xA0 0xB0 100 95 demo_handler)
   \<and> isl (executeRebalancing demo_evm (call_env mallory 0) 7 ''rebalance'' 5 demo_handler)
   \<and> isl (processCallback demo_evm (call_env mallory 0) 1 7
        (abi_encode_action ''rebalance'' 5 0) demo_signature demo_handler)"
proof -
  have u: "msg_sender (call_env mallory v) \<noteq> user (positions demo_manager 7)" for v
    by (simp add: demo_defs mallory_def)
  have o: "msg_sender (call_env mallory 0) \<noteq> m_owner demo_manager"
    by (simp add: demo_defs mallory_def)
  have r: "msg_sender (call_env mallory 0) \<noteq> REACTIVE_SYSTEM"
    by (simp add: demo_defs mallory_def REACTIVE_SYSTEM_def)
  have a: "\<not> authorizedCallers demo_handler (msg_sender (call_env mallory 0))"
    by (simp add: demo_defs demo_handler_def mallory_def)
  have g1: "isl (updatePosition (call_env mallory 0) 7 (10 ^ 17) ''hedge'' (10 ^ 18) demo_manager)"
    and g3: "isl (deactivatePosition (call_env mallory 0) 7 demo_manager)"
    and g4: "isl (react demo_evm (call_env mallory 0) (price_log 7 2 3 (5 * 10 ^ 17)) demo_manager)"
    using only_authorized_callers [where s = demo_manager and e = "call_env mallory 0"
        and pid = 7 and X = demo_evm] u o r by blast+
  have g2: "isl (updateGasBudget (call_env mallory 1) 7 1 demo_manager)"
    using only_authorized_callers [where s = demo_manager and e = "call_env mallory 1"
        and pid = 7] u by blast
  have g5: "isl (executeHedgingTrade demo_evm (call_env mallory 0) 7 0xA0 0xB0 100 95 demo_handler)"
    and g6: "isl (executeRebalancing demo_evm (call_env mallory 0) 7 ''rebalance'' 5 demo_handler)"
    and g7: "isl (processCallback demo_evm (call_env mallory 0) 1 7
        (abi_encode_action ''rebalance'' 5 0) demo_signature demo_handler)"
    using only_authorized_callers [where e = "call_env mallory 0"
        and pid = 7 and h = demo_handler and X = demo_evm] a by blast+
  show ?thesis
    using g1 g2 g3 g4 g5 g6 g7 by simp
qed

section \<open>Callbacks on the destination handler\<close>

lemma demo_signature_valid:
  "block_chainid e = 1597 \<Longrightarrow>
   validateCallback demo_evm e 7 demo_signature h = Inr (authorizedCallers h relayer)"
  by (simp add: validateCallback_def demo_signature_def demo_evm_def demo_recover_def
      length_bytes_of_uint uint_of_bytes_of_uint ucast_address_roundtrip Let_def)

lemma executeHedgingTrade_zero_out:
  "isl (executeHedgingTrade X e pid tokenIn 0 amountIn minAmountOut s)"
  by (simp add: executeHedgingTrade_def Let_def)

lemma executeHedgingTrade_zero_out_neq [simp]:
  "executeHedgingTrade X e pid tokenIn 0 amountIn minAmountOut s \<noteq> Inr r"
  using executeHedgingTrade_zero_out [of X e pid tokenIn amountIn minAmountOut s]
  by (cases "executeHedgingTrade X e pid tokenIn 0 amountIn minAmountOut s") auto

lemma validateCallback_depends:
  "block_chainid e2 = block_chainid e1 \<Longrightarrow> authorizedCallers s2 = authorizedCallers s1 \<Longrightarrow>
   validateCallback X e2 pid sg s2 = validateCallback X e1 pid sg s1"
  by (simp add: validateCallback_def split: sum.splits)

lemma executeRebalancing_Inr:
  "executeRebalancing X e pid at am s = Inr (s', r) \<Longrightarrow>
   authorizedCallers s' = authorizedCallers s \<and> processedCallbacks s' = processedCallbacks s
   \<and> h_paused s' = h_paused s \<and> \<not> h_entered s \<and> \<not> h_entered s' \<and> h_owner s' = h_owner s
   \<and> fst r = True"
  by (auto simp: executeRebalancing_def Let_def executePartialUnwind_def executeRebalance_def
      split: if_splits)

lemma processCallback_Inr:
  assumes "processCallback X e cb pid ad sg s = Inr (s', ok)"
  shows "authorizedCallers s' = authorizedCallers s
    \<and> processedCallbacks s' = (processedCallbacks s)(cb := True)
    \<and> h_paused s' = h_paused s \<and> h_entered s' = h_entered s \<and> ok"
  using assms
  by (auto simp: processCallback_def Let_def split: if_splits sum.splits prod.splits
      dest!: executeRebalancing_Inr)

lemma processCallback_hedge_isl:
  assumes "abi_decode_action ad = Inr (''hedge'', amount, token)"
  shows "isl (processCallback X e cb pid ad sg s)"
proof (cases "processCallback X e cb pid ad sg s")
  case (Inl a)
  then show ?thesis by simp
next
  case (Inr b)
  then show ?thesis
    using assms
    by (auto simp: processCallback_def Let_def split: if_splits sum.splits prod.splits)
qed

lemma processCallback_rebalancing:
  assumes "msg_value e = 0" and "authorizedCallers s (msg_sender e)"
    and "\<not> processedCallbacks s cb" and "validateCallback X e pid sg s = Inr True"
    and "\<not> h_paused s" and "\<not> h_entered s"
    and "abi_decode_action ad = Inr (at, amt, tok)"
    and "at = ''partial_unwind'' \<or> at = ''rebalance''" and "0 < amt"
    and "keccak256 X (bytes_of_string at) \<noteq> keccak256 X (bytes_of_string ''hedge'')"
  shows "processCallback X e cb pid ad sg s
    = Inr (s\<lparr> processedCallbacks := (processedCallbacks s)(cb := True),
              h_events := h_events s
                @ [RebalancingExecuted pid at amt (keccak256 X (bytes_of_uint 32 pid
                     @ bytes_of_string at @ bytes_of_uint 32 amt
                     @ bytes_of_uint 32 (block_timestamp e))),
                   CallbackProcessed cb True],
              h_entered := False \<rparr>, True)"
  using assms
  by (auto simp: processCallback_def executeRebalancing_def executePartialUnwind_def
      executeRebalance_def Let_def bytes_of_string_def)

lemma demo_hashes:
  "demo_keccak256 (bytes_of_string ''rebalance'') \<noteq> demo_keccak256 (bytes_of_string ''hedge'')"
  "demo_keccak256 (bytes_of_string ''rebalance'') \<noteq> demo_keccak256 (bytes_of_string ''partial_unwind'')"
  "demo_keccak256 (bytes_of_string ''partial_unwind'') \<noteq> demo_keccak256 (bytes_of_string ''hedge'')"
  by (simp_all add: demo_keccak256_def bytes_of_string_def)

lemma demo_rebalance_callback:
  assumes "\<not> processedCallbacks h cb" and "authorizedCallers h relayer"
    and "\<not> h_paused h" and "\<not> h_entered h"
  shows "processCallback demo_evm (call_env relayer 0) cb 7
           (abi_encode_action ''rebalance'' 5 0) demo_signature h
    = Inr (h\<lparr> processedCallbacks := (processedCallbacks h)(cb := True),
              h_events := h_events h
                @ [RebalancingExecuted 7 ''rebalance'' 5 (demo_keccak256 (bytes_of_uint 32 (7::uint256)
                     @ bytes_of_string ''rebalance'' @ bytes_of_uint 32 (5::uint256)
                     @ bytes_of_uint 32 (2000::uint256))),
                   CallbackProcessed cb True],
              h_entered := False \<rparr>, True)"
proof -
  have v: "validateCallback demo_evm (call_env relayer 0) 7 demo_signature h = Inr True"
    using assms(2) by (simp add: demo_signature_valid call_env_def)
  have d: "abi_decode_action (abi_encode_action ''rebalance'' 5 0) = Inr (''rebalance'', 5, 0)"
    by (simp add: abi_decode_encode_action)
  have k: "keccak256 demo_evm (bytes_of_string ''rebalance'')
      \<noteq> keccak256 demo_evm (bytes_of_string ''hedge'')"
    using demo_hashes(1) by (simp add: demo_evm_def)
  show ?thesis
    using processCallback_rebalancing [OF _ _ assms(1) v assms(3,4) d _ _ k] assms(2)
    by (simp add: call_env_def demo_evm_def)
qed

text \<open>
  C5. Whatever the callback id, position id and signature, a callback whose action data
  decodes to the action type "hedge" never succeeds: \<open>processCallback\<close> calls
  \<open>executeHedgingTrade\<close> with the zero address as \<open>tokenOut\<close>, and
  \<open>executeHedgingTrade\<close> fails on every call with a zero \<open>tokenOut\<close>. The failed
  call leaves the state as it was.
\<close>

theorem hedge_callback_never_succeeds:
  "isl (executeHedgingTrade X e positionId tokenIn 0 amountIn minAmountOut s)
   \<and> (abi_decode_action actionData = Inr (''hedge'', amount, token) \<longrightarrow>
        isl (processCallback X e callbackId positionId actionData signature s)
        \<and> after_ret s (processCallback X e callbackId positionId actionData signature s) = s)"
proof (intro conjI impI)
  show "isl (executeHedgingTrade X e positionId tokenIn 0 amountIn minAmountOut s)"
    by (rule executeHedgingTrade_zero_out)
  assume d: "abi_decode_action actionData = Inr (''hedge'', amount, token)"
  show f: "isl (processCallback X e callbackId positionId actionData signature s)"
    using d by (rule processCallback_hedge_isl)
  show "after_ret s (processCallback X e callbackId positionId actionData signature s) = s"
    using f by (rule isl_after_ret)
qed

theorem hedge_callback_never_succeeds_witness:
  "abi_decode_action (abi_encode_action ''hedge'' 100 0xAA) = Inr (''hedge'', 100, 0xAA)
   \<and> isl (processCallback demo_evm (call_env relayer 0) 1 7
        (abi_encode_action ''hedge'' 100 0xAA) demo_signature demo_handler)
   \<and> processCallback demo_evm (call_env relayer 0) 1 7
        (abi_encode_action ''hedge'' 100 0xAA) demo_signature demo_handler
       = Inl (Revert ''Invalid token addresses'')"
proof -
  have d: "abi_decode_action (abi_encode_action ''hedge'' 100 0xAA) = Inr (''hedge'', 100, 0xAA)"
    by (simp add: abi_decode_encode_action)
  have v: "validateCallback demo_evm (call_env relayer 0) 7 demo_signature demo_handler = Inr True"
    by (simp add: demo_signature_valid call_env_def demo_handler_def)
  have i: "isl (processCallback demo_evm (call_env relayer 0) 1 7
        (abi_encode_action ''hedge'' 100 0xAA) demo_signature demo_handler)"
    using hedge_callback_never_succeeds [where actionData = "abi_encode_action ''hedge'' 100 0xAA"
        and amount = 100 and token = "0xAA"] d by blast
  have "processCallback demo_evm (call_env relayer 0) 1 7
        (abi_encode_action ''hedge'' 100 0xAA) demo_signature demo_handler
       = Inl (Revert ''Invalid token addresses'')"
    using d v
    by (simp add: processCallback_def executeHedgingTrade_def checked_mul_def checked_div_def
        call_env_def demo_handler_def relayer_def admin_def Let_def)
  with d i show ?thesis by simp
qed


lemma executeHedgingTrade_Inr:
  "executeHedgingTrade X e pid ti to ai mo s = Inr (s', r) \<Longrightarrow>
   processedCallbacks s' = processedCallbacks s \<and> authorizedCallers s' = authorizedCallers s"
  by (auto simp: executeHedgingTrade_def executeSwap_def Let_def
      split: if_splits option.splits sum.splits)

text \<open>No function of the handler removes a mark: one call, then any sequence of calls.\<close>

lemma handler_step_marks:
  assumes "processedCallbacks s i"
  shows "processedCallbacks (handler_step X e c s) i"
proof (cases c)
  case (ExecuteHedgingTrade p ti to ai mo)
  then show ?thesis
    using assms
    by (cases "executeHedgingTrade X e p ti to ai mo s")
       (auto simp: after_ret_def dest: executeHedgingTrade_Inr)
next
  case (ExecuteRebalancing p at am)
  then show ?thesis
    using assms
    by (cases "executeRebalancing X e p at am s")
       (auto simp: after_ret_def dest: executeRebalancing_Inr)
next
  case (ValidateCallback p sg)
  then show ?thesis using assms by simp
next
  case (ProcessCallback cb p ad sg)
  then show ?thesis
    using assms
    by (cases "processCallback X e cb p ad sg s")
       (auto simp: after_ret_def dest: processCallback_Inr)
next
  case (UpdateAuthorizedCaller a b)
  then show ?thesis
    using assms by (simp add: after_def updateAuthorizedCaller_def)
next
  case HandlerPause
  then show ?thesis
    using assms by (simp add: after_def handler_pause_def)
next
  case HandlerUnpause
  then show ?thesis
    using assms by (simp add: after_def handler_unpause_def)
next
  case (EmergencyWithdraw t a)
  then show ?thesis
    using assms by (simp add: after_def emergencyWithdraw_def)
next
  case (TransferOwnership a)
  then show ?thesis
    using assms by (simp add: after_def handler_transferOwnership_def)
next
  case RenounceOwnership
  then show ?thesis
    using assms by (simp add: after_def handler_renounceOwnership_def)
qed

lemma handler_run_marks:
  "processedCallbacks s i \<Longrightarrow> processedCallbacks (handler_run cs s) i"
proof (induction cs arbitrary: s)
  case Nil
  then show ?case by simp
next
  case (Cons a cs)
  obtain X e c where a: "a = (X, e, c)" by (cases a)
  show ?case
    unfolding a handler_run.simps
    by (rule Cons.IH) (rule handler_step_marks [OF Cons.prems])
qed

lemma processCallback_marked:
  "processedCallbacks s cb \<Longrightarrow>
   isl (processCallback X e cb pid ad sg s)
   \<and> (msg_value e = 0 \<and> authorizedCallers s (msg_sender e) \<longrightarrow>
        processCallback X e cb pid ad sg s = Inl (Revert ''Callback already processed''))"
  by (simp add: processCallback_def)

lemma demo_later_calls:
  assumes "\<not> processedCallbacks h 2" and "authorizedCallers h relayer"
    and "\<not> h_paused h" and "\<not> h_entered h" and "h_owner h = admin"
  shows "processedCallbacks (handler_run later_calls h) 2
       \<and> authorizedCallers (handler_run later_calls h) mallory
       \<and> \<not> h_paused (handler_run later_calls h)"
  unfolding later_calls_def handler_run.simps handler_step.simps
    demo_rebalance_callback [OF assms(1,2,3,4)]
  using assms
  by (simp add: after_ret_def after_def handler_pause_def handler_unpause_def
      updateAuthorizedCaller_def call_env_def)

text \<open>
  C7, as claimed: a callback whose inner action fails stays marked as processed, and a
  retry of the same callback id is rejected. It is not so: the mark is written before the
  inner action, but a failing inner action aborts the whole call and the mark is undone
  with it. On the example a hedge callback with id 1 fails, id 1 is still unmarked, and a
  second callback with id 1 (a rebalance) succeeds.
\<close>

theorem failed_callback_can_be_retried:
  "isl (processCallback demo_evm (call_env relayer 0) 1 7
        (abi_encode_action ''hedge'' 100 0xAA) demo_signature demo_handler)
   \<and> \<not> processedCallbacks (after_ret demo_handler (processCallback demo_evm (call_env relayer 0) 1 7
        (abi_encode_action ''hedge'' 100 0xAA) demo_signature demo_handler)) 1
   \<and> \<not> isl (processCallback demo_evm (call_env relayer 0) 1 7
        (abi_encode_action ''rebalance'' 5 0) demo_signature
        (after_ret demo_handler (processCallback demo_evm (call_env relayer 0) 1 7
           (abi_encode_action ''hedge'' 100 0xAA) demo_signature demo_handler)))"
proof -
  have f: "isl (processCallback demo_evm (call_env relayer 0) 1 7
        (abi_encode_action ''hedge'' 100 0xAA) demo_signature demo_handler)"
    using processCallback_hedge_isl [OF abi_decode_encode_action] by simp
  have a: "after_ret demo_handler (processCallback demo_evm (call_env relayer 0) 1 7
        (abi_encode_action ''hedge'' 100 0xAA) demo_signature demo_handler) = demo_handler"
    using f by (rule isl_after_ret)
  have r: "\<not> isl (processCallback demo_evm (call_env relayer 0) 1 7
        (abi_encode_action ''rebalance'' 5 0) demo_signature demo_handler)"
    by (subst demo_rebalance_callback) (simp_all add: demo_handler_def)
  show ?thesis
    using f r unfolding a by (simp add: demo_handler_def)
qed

text \<open>
  C7, amended. \<open>processCallback\<close> marks the callback id before it executes the decoded
  action, and the mark lasts exactly when the whole call succeeds: after a successful call
  the id is marked and every later call with that id, by an authorized caller, is rejected
  with "Callback already processed". The mark persists: no function of the handler clears a
  mark, so after any further sequence of calls to the handler the id is still marked and
  every call of \<open>processCallback\<close> with that id fails, with "Callback already processed"
  when the caller is authorized. When the inner action fails (the rebalancing call
  fails on the marked state, or the action is a hedge) the whole call fails; a failed
  call leaves the id as it was, and the same call made again gives the same result.
\<close>

theorem processCallback_mark:
  "(\<forall>s' ok. processCallback X e cb pid ad sg s = Inr (s', ok) \<longrightarrow>
       processedCallbacks s' cb
       \<and> (\<forall>(e'::env) pid' ad' sg'. msg_value e' = 0 \<and> authorizedCallers s' (msg_sender e') \<longrightarrow>
            processCallback X e' cb pid' ad' sg' s' = Inl (Revert ''Callback already processed''))
       \<and> (\<forall>cs. processedCallbacks (handler_run cs s') cb
            \<and> (\<forall>(X'::evm) (e'::env) pid' ad' sg'.
                 isl (processCallback X' e' cb pid' ad' sg' (handler_run cs s'))
                 \<and> (msg_value e' = 0 \<and> authorizedCallers (handler_run cs s') (msg_sender e') \<longrightarrow>
                      processCallback X' e' cb pid' ad' sg' (handler_run cs s')
                        = Inl (Revert ''Callback already processed'')))))
   \<and> (\<forall>(X'::evm) (e'::env) c i. processedCallbacks s i \<longrightarrow>
         processedCallbacks (handler_step X' e' c s) i)
   \<and> (\<forall>cs i. processedCallbacks s i \<longrightarrow> processedCallbacks (handler_run cs s) i)
   \<and> (\<forall>at amt tok. abi_decode_action ad = Inr (at, amt, tok)
         \<and> keccak256 X (bytes_of_string at) \<noteq> keccak256 X (bytes_of_string ''hedge'')
         \<and> isl (executeRebalancing X e pid at amt
                  (s\<lparr> processedCallbacks := (processedCallbacks s)(cb := True) \<rparr>)) \<longrightarrow>
       isl (processCallback X e cb pid ad sg s))
   \<and> (\<forall>amt tok. abi_decode_action ad = Inr (''hedge'', amt, tok) \<longrightarrow>
       isl (processCallback X e cb pid ad sg s))
   \<and> (isl (processCallback X e cb pid ad sg s) \<longrightarrow>
       processedCallbacks (after_ret s (processCallback X e cb pid ad sg s)) cb
         = processedCallbacks s cb
       \<and> processCallback X e cb pid ad sg (after_ret s (processCallback X e cb pid ad sg s))
         = processCallback X e cb pid ad sg s)"
proof (intro conjI allI impI)
  fix s' ok
  assume r: "processCallback X e cb pid ad sg s = Inr (s', ok)"
  show m: "processedCallbacks s' cb"
    using processCallback_Inr [OF r] by simp
  {
    fix e' :: env and pid' ad' sg'
    assume "msg_value e' = 0 \<and> authorizedCallers s' (msg_sender e')"
    then show "processCallback X e' cb pid' ad' sg' s' = Inl (Revert ''Callback already processed'')"
      using m by (simp add: processCallback_def)
  }
  fix cs
  show l: "processedCallbacks (handler_run cs s') cb"
    using m by (rule handler_run_marks)
  fix X' :: evm and e' :: env and pid' ad' sg'
  show "isl (processCallback X' e' cb pid' ad' sg' (handler_run cs s'))"
    using processCallback_marked [OF l] by blast
  assume "msg_value e' = 0 \<and> authorizedCallers (handler_run cs s') (msg_sender e')"
  then show "processCallback X' e' cb pid' ad' sg' (handler_run cs s')
      = Inl (Revert ''Callback already processed'')"
    using processCallback_marked [OF l] by blast
next
  fix X' :: evm and e' :: env and c i
  assume "processedCallbacks s i"
  then show "processedCallbacks (handler_step X' e' c s) i"
    by (rule handler_step_marks)
next
  fix cs i
  assume "processedCallbacks s i"
  then show "processedCallbacks (handler_run cs s) i"
    by (rule handler_run_marks)
next
  fix at amt tok
  assume "abi_decode_action ad = Inr (at, amt, tok)
         \<and> keccak256 X (bytes_of_string at) \<noteq> keccak256 X (bytes_of_string ''hedge'')
         \<and> isl (executeRebalancing X e pid at amt
                  (s\<lparr> processedCallbacks := (processedCallbacks s)(cb := True) \<rparr>))"
  then show "isl (processCallback X e cb pid ad sg s)"
    by (auto simp: processCallback_def Let_def isl_def split: sum.splits)
next
  fix amt tok
  assume "abi_decode_action ad = Inr (''hedge'', amt, tok)"
  then show "isl (processCallback X e cb pid ad sg s)"
    by (rule processCallback_hedge_isl)
next
  assume f: "isl (processCallback X e cb pid ad sg s)"
  have a: "after_ret s (processCallback X e cb pid ad sg s) = s"
    using f by (rule isl_after_ret)
  show "processedCallbacks (after_ret s (processCallback X e cb pid ad sg s)) cb
         = processedCallbacks s cb"
    unfolding a by simp
  show "processCallback X e cb pid ad sg (after_ret s (processCallback X e cb pid ad sg s))
         = processCallback X e cb pid ad sg s"
    unfolding a by simp
qed

theorem processCallback_mark_witness:
  "\<not> isl (processCallback demo_evm (call_env relayer 0) 1 7
        (abi_encode_action ''rebalance'' 5 0) demo_signature demo_handler)
   \<and> processedCallbacks (after_ret demo_handler (processCallback demo_evm (call_env relayer 0) 1 7
        (abi_encode_action ''rebalance'' 5 0) demo_signature demo_handler)) 1
   \<and> processCallback demo_evm (call_env relayer 0) 1 7
        (abi_encode_action ''partial_unwind'' 9 0) demo_signature
        (after_ret demo_handler (processCallback demo_evm (call_env relayer 0) 1 7
           (abi_encode_action ''rebalance'' 5 0) demo_signature demo_handler))
       = Inl (Revert ''Callback already processed'')
   \<and> processedCallbacks (handler_run later_calls
        (after_ret demo_handler (processCallback demo_evm (call_env relayer 0) 1 7
           (abi_encode_action ''rebalance'' 5 0) demo_signature demo_handler))) 1
   \<and> processedCallbacks (handler_run later_calls
        (after_ret demo_handler (processCallback demo_evm (call_env relayer 0) 1 7
           (abi_encode_action ''rebalance'' 5 0) demo_signature demo_handler))) 2
   \<and> authorizedCallers (handler_run later_calls
        (after_ret demo_handler (processCallback demo_evm (call_env relayer 0) 1 7
           (abi_encode_action ''rebalance'' 5 0) demo_signature demo_handler))) mallory
   \<and> processCallback demo_evm (call_env mallory 0) 1 7
        (abi_encode_action ''rebalance'' 5 0) demo_signature
        (handler_run later_calls
           (after_ret demo_handler (processCallback demo_evm (call_env relayer 0) 1 7
              (abi_encode_action ''rebalance'' 5 0) demo_signature demo_handler)))
       = Inl (Revert ''Callback already processed'')
   \<and> isl (processCallback demo_evm (call_env relayer 0) 1 7
        (abi_encode_action ''hedge'' 100 0xAA) demo_signature demo_handler)
   \<and> \<not> processedCallbacks (after_ret demo_handler (processCallback demo_evm (call_env relayer 0) 1 7
        (abi_encode_action ''hedge'' 100 0xAA) demo_signature demo_handler)) 1"
proof -
  let ?reb = "processCallback demo_evm (call_env relayer 0) 1 7
        (abi_encode_action ''rebalance'' 5 0) demo_signature demo_handler"
  let ?hedge = "processCallback demo_evm (call_env relayer 0) 1 7
        (abi_encode_action ''hedge'' 100 0xAA) demo_signature demo_handler"
  have "\<exists>s1. ?reb = Inr (s1, True)"
    by (subst demo_rebalance_callback) (simp_all add: demo_handler_def)
  then obtain s1 where r: "?reb = Inr (s1, True)" ..
  have a: "after_ret demo_handler ?reb = s1"
    using r by (simp add: after_ret_def)
  have au: "authorizedCallers s1 relayer"
    using processCallback_Inr [OF r] by (simp add: demo_handler_def)
  have mn: "processedCallbacks s1 1
      \<and> (\<forall>(e'::env) pid' ad' sg'. msg_value e' = 0 \<and> authorizedCallers s1 (msg_sender e') \<longrightarrow>
            processCallback demo_evm e' 1 pid' ad' sg' s1
              = Inl (Revert ''Callback already processed''))
      \<and> (\<forall>cs. processedCallbacks (handler_run cs s1) 1
            \<and> (\<forall>(X'::evm) (e'::env) pid' ad' sg'.
                 isl (processCallback X' e' 1 pid' ad' sg' (handler_run cs s1))
                 \<and> (msg_value e' = 0 \<and> authorizedCallers (handler_run cs s1) (msg_sender e') \<longrightarrow>
                      processCallback X' e' 1 pid' ad' sg' (handler_run cs s1)
                        = Inl (Revert ''Callback already processed''))))"
    by (rule processCallback_mark [where X = demo_evm and e = "call_env relayer 0" and cb = 1
        and pid = 7 and ad = "abi_encode_action ''rebalance'' 5 0" and sg = demo_signature
        and s = demo_handler, THEN conjunct1, rule_format, OF r])
  have au': "msg_value (call_env relayer 0) = 0
      \<and> authorizedCallers s1 (msg_sender (call_env relayer 0))"
    using au by (simp add: call_env_def)
  have m: "processedCallbacks s1 1"
    using mn by blast
  have n: "processCallback demo_evm (call_env relayer 0) 1 7
        (abi_encode_action ''partial_unwind'' 9 0) demo_signature s1
       = Inl (Revert ''Callback already processed'')"
    using mn au' by blast
  have s1: "\<not> processedCallbacks s1 2" "\<not> h_paused s1" "\<not> h_entered s1" "h_owner s1 = admin"
    using r by (auto simp: demo_rebalance_callback demo_handler_def)
  have lc: "processedCallbacks (handler_run later_calls s1) 2"
    "authorizedCallers (handler_run later_calls s1) mallory"
    using demo_later_calls [OF s1(1) au s1(2,3,4)] by simp_all
  have au'': "msg_value (call_env mallory 0) = 0
      \<and> authorizedCallers (handler_run later_calls s1) (msg_sender (call_env mallory 0))"
    using lc(2) by (simp add: call_env_def)
  have m': "processedCallbacks (handler_run later_calls s1) 1"
    using mn by blast
  have n': "processCallback demo_evm (call_env mallory 0) 1 7
        (abi_encode_action ''rebalance'' 5 0) demo_signature (handler_run later_calls s1)
       = Inl (Revert ''Callback already processed'')"
    using mn au'' by blast
  have d: "abi_decode_action (abi_encode_action ''hedge'' 100 0xAA) = Inr (''hedge'', 100, 0xAA)"
    by (simp add: abi_decode_encode_action)
  have h: "isl ?hedge"
    using processCallback_mark [where X = demo_evm and e = "call_env relayer 0" and cb = 1
        and pid = 7 and ad = "abi_encode_action ''hedge'' 100 0xAA" and sg = demo_signature
        and s = demo_handler] d by blast
  have u: "\<not> processedCallbacks (after_ret demo_handler ?hedge) 1"
    using processCallback_mark [where X = demo_evm and e = "call_env relayer 0" and cb = 1
        and pid = 7 and ad = "abi_encode_action ''hedge'' 100 0xAA" and sg = demo_signature
        and s = demo_handler] h by (simp add: demo_handler_def)
  show ?thesis
    using r m n m' lc n' h u unfolding a by simp
qed

text \<open>
  C6, as claimed: two callbacks with the same position id and signature but different
  callback ids and action data both succeed when their ids are fresh. It is not so for
  every action data: on the example, with a signature valid both times and fresh ids, the
  rebalance callback succeeds and the hedge callback is rejected.
\<close>

theorem valid_signature_hedge_payload_fails:
  "validateCallback demo_evm (call_env relayer 0) 7 demo_signature demo_handler = Inr True
   \<and> \<not> isl (processCallback demo_evm (call_env relayer 0) 1 7
        (abi_encode_action ''rebalance'' 5 0) demo_signature demo_handler)
   \<and> \<not> processedCallbacks (after_ret demo_handler (processCallback demo_evm (call_env relayer 0) 1 7
        (abi_encode_action ''rebalance'' 5 0) demo_signature demo_handler)) 2
   \<and> validateCallback demo_evm (call_env relayer 0) 7 demo_signature
        (after_ret demo_handler (processCallback demo_evm (call_env relayer 0) 1 7
           (abi_encode_action ''rebalance'' 5 0) demo_signature demo_handler)) = Inr True
   \<and> isl (processCallback demo_evm (call_env relayer 0) 2 7
        (abi_encode_action ''hedge'' 100 0xAA) demo_signature
        (after_ret demo_handler (processCallback demo_evm (call_env relayer 0) 1 7
           (abi_encode_action ''rebalance'' 5 0) demo_signature demo_handler)))"
proof -
  let ?reb = "processCallback demo_evm (call_env relayer 0) 1 7
        (abi_encode_action ''rebalance'' 5 0) demo_signature demo_handler"
  have "\<exists>s1. ?reb = Inr (s1, True)"
    by (subst demo_rebalance_callback) (simp_all add: demo_handler_def)
  then obtain s1 where r: "?reb = Inr (s1, True)" ..
  have a: "after_ret demo_handler ?reb = s1"
    using r by (simp add: after_ret_def)
  have p: "authorizedCallers s1 relayer" "\<not> processedCallbacks s1 2"
    using processCallback_Inr [OF r] by (simp_all add: demo_handler_def)
  have v0: "validateCallback demo_evm (call_env relayer 0) 7 demo_signature demo_handler = Inr True"
    by (simp add: demo_signature_valid call_env_def demo_handler_def)
  have v1: "validateCallback demo_evm (call_env relayer 0) 7 demo_signature s1 = Inr True"
    using p(1) by (simp add: demo_signature_valid call_env_def)
  have h: "isl (processCallback demo_evm (call_env relayer 0) 2 7
        (abi_encode_action ''hedge'' 100 0xAA) demo_signature s1)"
    using processCallback_hedge_isl [OF abi_decode_encode_action] by simp
  show ?thesis
    using r p v0 v1 h unfolding a by simp
qed

lemma two_callbacks_succeed:
  assumes v1: "msg_value e1 = 0" and v2: "msg_value e2 = 0"
    and a1: "authorizedCallers s (msg_sender e1)" and a2: "authorizedCallers s (msg_sender e2)"
    and c: "block_chainid e2 = block_chainid e1"
    and v: "validateCallback X e1 pid sg s = Inr True"
    and ne: "cb1 \<noteq> cb2" and f1: "\<not> processedCallbacks s cb1" and f2: "\<not> processedCallbacks s cb2"
    and np: "\<not> h_paused s" and nr: "\<not> h_entered s"
    and d1: "abi_decode_action ad1 = Inr (at1, amt1, tok1)"
    and d2: "abi_decode_action ad2 = Inr (at2, amt2, tok2)"
    and t1: "at1 = ''partial_unwind'' \<or> at1 = ''rebalance''"
    and t2: "at2 = ''partial_unwind'' \<or> at2 = ''rebalance''"
    and p1: "0 < amt1" and p2: "0 < amt2"
    and k1: "keccak256 X (bytes_of_string at1) \<noteq> keccak256 X (bytes_of_string ''hedge'')"
    and k2: "keccak256 X (bytes_of_string at2) \<noteq> keccak256 X (bytes_of_string ''hedge'')"
  shows "\<exists>s1. processCallback X e1 cb1 pid ad1 sg s = Inr (s1, True)
             \<and> (\<exists>s2. processCallback X e2 cb2 pid ad2 sg s1 = Inr (s2, True))"
proof -
  define s1 where "s1 = s\<lparr> processedCallbacks := (processedCallbacks s)(cb1 := True),
              h_events := h_events s
                @ [RebalancingExecuted pid at1 amt1 (keccak256 X (bytes_of_uint 32 pid
                     @ bytes_of_string at1 @ bytes_of_uint 32 amt1
                     @ bytes_of_uint 32 (block_timestamp e1))),
                   CallbackProcessed cb1 True],
              h_entered := False \<rparr>"
  have r1: "processCallback X e1 cb1 pid ad1 sg s = Inr (s1, True)"
    unfolding s1_def by (rule processCallback_rebalancing [OF v1 a1 f1 v np nr d1 t1 p1 k1])
  have au: "authorizedCallers s1 = authorizedCallers s"
    by (simp add: s1_def)
  have v': "validateCallback X e2 pid sg s1 = Inr True"
    using validateCallback_depends [OF c au, of X pid sg] v by simp
  have a2': "authorizedCallers s1 (msg_sender e2)"
    using a2 by (simp add: s1_def)
  have f2': "\<not> processedCallbacks s1 cb2"
    using f2 ne by (simp add: s1_def)
  have np': "\<not> h_paused s1" and nr': "\<not> h_entered s1"
    using np by (simp_all add: s1_def)
  have "\<exists>s2. processCallback X e2 cb2 pid ad2 sg s1 = Inr (s2, True)"
    using processCallback_rebalancing [OF v2 a2' f2' v' np' nr' d2 t2 p2 k2] by blast
  with r1 show ?thesis by blast
qed

text \<open>
  C6, amended. The signature check of a callback depends only on the position id, the
  chain id, the signature and the allow-list: for two calls with the same position id and
  signature, whatever their callback ids and action data, signature validation after the
  first call gives what it gave before it. So a signature valid for a position passes
  for any payload for that position, and with fresh, distinct callback ids both calls
  succeed when each payload decodes to a "partial_unwind" or "rebalance" action with a
  positive amount (on a handler that is not paused, called by authorized callers). A
  payload whose own action fails, such as any hedge payload, is rejected all the same.
\<close>

theorem callback_signature_binds_position_only:
  "(block_chainid e2 = block_chainid e1 \<longrightarrow>
      validateCallback X e2 pid sg (after_ret s (processCallback X e1 cb1 pid ad1 sg s))
        = validateCallback X e1 pid sg s)
   \<and> (msg_value e1 = 0 \<and> msg_value e2 = 0
       \<and> authorizedCallers s (msg_sender e1) \<and> authorizedCallers s (msg_sender e2)
       \<and> block_chainid e2 = block_chainid e1
       \<and> validateCallback X e1 pid sg s = Inr True
       \<and> cb1 \<noteq> cb2 \<and> \<not> processedCallbacks s cb1 \<and> \<not> processedCallbacks s cb2
       \<and> \<not> h_paused s \<and> \<not> h_entered s
       \<and> abi_decode_action ad1 = Inr (at1, amt1, tok1)
       \<and> abi_decode_action ad2 = Inr (at2, amt2, tok2)
       \<and> (at1 = ''partial_unwind'' \<or> at1 = ''rebalance'')
       \<and> (at2 = ''partial_unwind'' \<or> at2 = ''rebalance'')
       \<and> 0 < amt1 \<and> 0 < amt2
       \<and> keccak256 X (bytes_of_string at1) \<noteq> keccak256 X (bytes_of_string ''hedge'')
       \<and> keccak256 X (bytes_of_string at2) \<noteq> keccak256 X (bytes_of_string ''hedge'')
      \<longrightarrow> (\<exists>s1. processCallback X e1 cb1 pid ad1 sg s = Inr (s1, True)
             \<and> (\<exists>s2. processCallback X e2 cb2 pid ad2 sg s1 = Inr (s2, True))))
   \<and> (abi_decode_action ad2 = Inr (''hedge'', amt2, tok2) \<longrightarrow>
        isl (processCallback X e2 cb2 pid ad2 sg
               (after_ret s (processCallback X e1 cb1 pid ad1 sg s))))"
proof (intro conjI impI)
  assume c: "block_chainid e2 = block_chainid e1"
  show "validateCallback X e2 pid sg (after_ret s (processCallback X e1 cb1 pid ad1 sg s))
        = validateCallback X e1 pid sg s"
  proof (cases "processCallback X e1 cb1 pid ad1 sg s")
    case (Inl err)
    then show ?thesis
      using validateCallback_depends [OF c refl] by (simp add: after_ret_def)
  next
    case (Inr b)
    obtain s1 ok where b: "b = (s1, ok)" by (cases b)
    have "authorizedCallers s1 = authorizedCallers s"
      using processCallback_Inr [OF Inr [unfolded b]] by simp
    then show ?thesis
      using validateCallback_depends [OF c, of s1 s X pid sg] Inr b by (simp add: after_ret_def)
  qed
next
  assume h: "msg_value e1 = 0 \<and> msg_value e2 = 0
       \<and> authorizedCallers s (msg_sender e1) \<and> authorizedCallers s (msg_sender e2)
       \<and> block_chainid e2 = block_chainid e1
       \<and> validateCallback X e1 pid sg s = Inr True
       \<and> cb1 \<noteq> cb2 \<and> \<not> processedCallbacks s cb1 \<and> \<not> processedCallbacks s cb2
       \<and> \<not> h_paused s \<and> \<not> h_entered s
       \<and> abi_decode_action ad1 = Inr (at1, amt1, tok1)
       \<and> abi_decode_action ad2 = Inr (at2, amt2, tok2)
       \<and> (at1 = ''partial_unwind'' \<or> at1 = ''rebalance'')
       \<and> (at2 = ''partial_unwind'' \<or> at2 = ''rebalance'')
       \<and> 0 < amt1 \<and> 0 < amt2
       \<and> keccak256 X (bytes_of_string at1) \<noteq> keccak256 X (bytes_of_string ''hedge'')
       \<and> keccak256 X (bytes_of_string at2) \<noteq> keccak256 X (bytes_of_string ''hedge'')"
  then show "\<exists>s1. processCallback X e1 cb1 pid ad1 sg s = Inr (s1, True)
             \<and> (\<exists>s2. processCallback X e2 cb2 pid ad2 sg s1 = Inr (s2, True))"
    by (elim conjE)
      (rule two_callbacks_succeed [where ?at1.0 = at1 and ?at2.0 = at2 and ?amt1.0 = amt1
          and ?amt2.0 = amt2 and ?tok1.0 = tok1 and ?tok2.0 = tok2]; assumption)
next
  assume "abi_decode_action ad2 = Inr (''hedge'', amt2, tok2)"
  then show "isl (processCallback X e2 cb2 pid ad2 sg
               (after_ret s (processCallback X e1 cb1 pid ad1 sg s)))"
    by (rule processCallback_hedge_isl)
qed

theorem callback_signature_binds_position_only_witness:
  "validateCallback demo_evm (call_env relayer 0) 7 demo_signature
      (after_ret demo_handler (processCallback demo_evm (call_env relayer 0) 1 7
         (abi_encode_action ''rebalance'' 5 0) demo_signature demo_handler))
     = validateCallback demo_evm (call_env relayer 0) 7 demo_signature demo_handler
   \<and> validateCallback demo_evm (call_env relayer 0) 7 demo_signature demo_handler = Inr True
   \<and> \<not> isl (processCallback demo_evm (call_env relayer 0) 1 7
        (abi_encode_action ''rebalance'' 5 0) demo_signature demo_handler)
   \<and> \<not> isl (processCallback demo_evm (call_env relayer 0) 2 7
        (abi_encode_action ''partial_unwind'' 9 0) demo_signature
        (after_ret demo_handler (processCallback demo_evm (call_env relayer 0) 1 7
           (abi_encode_action ''rebalance'' 5 0) demo_signature demo_handler)))
   \<and> isl (processCallback demo_evm (call_env relayer 0) 2 7
        (abi_encode_action ''hedge'' 100 0xAA) demo_signature
        (after_ret demo_handler (processCallback demo_evm (call_env relayer 0) 1 7
           (abi_encode_action ''rebalance'' 5 0) demo_signature demo_handler)))"
proof -
  let ?e = "call_env relayer 0"
  let ?c1 = "processCallback demo_evm ?e 1 7
        (abi_encode_action ''rebalance'' 5 0) demo_signature demo_handler"
  note inst = callback_signature_binds_position_only [where X = demo_evm and ?e1.0 = ?e
      and ?e2.0 = ?e and s = demo_handler and pid = 7 and sg = demo_signature
      and ?cb1.0 = 1 and ?ad1.0 = "abi_encode_action ''rebalance'' 5 0"]
  have v: "validateCallback demo_evm ?e 7 demo_signature demo_handler = Inr True"
    by (simp add: demo_signature_valid call_env_def demo_handler_def)
  have g1: "validateCallback demo_evm ?e 7 demo_signature (after_ret demo_handler ?c1)
     = validateCallback demo_evm ?e 7 demo_signature demo_handler"
    using inst [THEN conjunct1] by simp
  have hyp: "msg_value ?e = 0 \<and> msg_value ?e = 0
       \<and> authorizedCallers demo_handler (msg_sender ?e)
       \<and> authorizedCallers demo_handler (msg_sender ?e)
       \<and> block_chainid ?e = block_chainid ?e
       \<and> validateCallback demo_evm ?e 7 demo_signature demo_handler = Inr True
       \<and> (1::bytes32) \<noteq> 2 \<and> \<not> processedCallbacks demo_handler 1
       \<and> \<not> processedCallbacks demo_handler 2
       \<and> \<not> h_paused demo_handler \<and> \<not> h_entered demo_handler
       \<and> abi_decode_action (abi_encode_action ''rebalance'' 5 0) = Inr (''rebalance'', 5, 0)
       \<and> abi_decode_action (abi_encode_action ''partial_unwind'' 9 0)
            = Inr (''partial_unwind'', 9, 0)
       \<and> (''rebalance'' = ''partial_unwind'' \<or> ''rebalance'' = ''rebalance'')
       \<and> (''partial_unwind'' = ''partial_unwind'' \<or> ''partial_unwind'' = ''rebalance'')
       \<and> (0::uint256) < 5 \<and> (0::uint256) < 9
       \<and> keccak256 demo_evm (bytes_of_string ''rebalance'')
            \<noteq> keccak256 demo_evm (bytes_of_string ''hedge'')
       \<and> keccak256 demo_evm (bytes_of_string ''partial_unwind'')
            \<noteq> keccak256 demo_evm (bytes_of_string ''hedge'')"
    using v demo_hashes
    by (simp add: abi_decode_encode_action demo_evm_def call_env_def demo_handler_def)
  obtain s1 s2 where r1: "?c1 = Inr (s1, True)"
    and r2: "processCallback demo_evm ?e 2 7
        (abi_encode_action ''partial_unwind'' 9 0) demo_signature s1 = Inr (s2, True)"
    using inst [where ?cb2.0 = 2 and ?ad2.0 = "abi_encode_action ''partial_unwind'' 9 0",
        THEN conjunct2, THEN conjunct1, rule_format, OF hyp]
    by blast
  have a: "after_ret demo_handler ?c1 = s1"
    using r1 by (simp add: after_ret_def)
  have d: "abi_decode_action (abi_encode_action ''hedge'' 100 0xAA) = Inr (''hedge'', 100, 0xAA)"
    by (simp add: abi_decode_encode_action)
  have g4: "isl (processCallback demo_evm ?e 2 7
        (abi_encode_action ''hedge'' 100 0xAA) demo_signature (after_ret demo_handler ?c1))"
    using inst [where ?cb2.0 = 2 and ?ad2.0 = "abi_encode_action ''hedge'' 100 0xAA",
        THEN conjunct2, THEN conjunct2, rule_format, OF d] .
  show ?thesis
    using g1 v r1 r2 g4 unfolding a by simp
qed

section \<open>The ingestion entrypoint\<close>

lemma abs_int256_uint: "uint (if sint d < 0 then - d else d) = \<bar>sint d\<bar>" for d :: int256
proof -
  have d: "d = word_of_int (sint d)" by simp
  have r: "\<bar>sint d\<bar> < 2 ^ 256"
    using sint_ge [of d] sint_lt [of d] by simp
  have "(if sint d < 0 then - d else d) = word_of_int \<bar>sint d\<bar>"
    using d by (metis abs_if of_int_minus of_int_sint scast_id)
  then show ?thesis
    using r by (simp add: uint_word_of_int)
qed

lemma threshold_test:
  "(thr \<le> (if sint d < 0 then - d else d)) = (uint thr \<le> \<bar>sint d\<bar>)" for d :: int256
  by (simp only: word_le_def abs_int256_uint)

lemma triggerReactiveAction_eq:
  "triggerReactiveAction X e pid reason data s =
     (if unat (totalReactiveActions s) + 1 < 2 ^ 256
         \<and> unat (totalGasUsed s) + unat (gasBudget (positions s pid)) < 2 ^ 256
      then Inr (triggered X e pid s) else Inl (Panic 0x11))"
  by (simp add: triggerReactiveAction_def checked_add_def triggered_def Let_def)

lemma handlePriceUpdate_eq:
  "handlePriceUpdate X e pid d s =
     (case abi_decode_words3 d of Inl err \<Rightarrow> Inl err
      | Inr (a, b, c) \<Rightarrow>
          if sint c = - (2 ^ 255) then Inl (Panic 0x11)
          else if uint (threshold (positions s pid)) \<le> \<bar>sint c\<bar>
            then triggerReactiveAction X e pid ''price_threshold_exceeded'' (abi_encode_words3 a b c) s
          else Inr s)"
  by (auto simp: handlePriceUpdate_def checked_neg_def threshold_test [symmetric]
      split: sum.splits prod.splits)

lemma handleLiquidityUpdate_eq:
  "handleLiquidityUpdate X e pid d s =
     (case abi_decode_words3 d of Inl err \<Rightarrow> Inl err
      | Inr (a, b, c) \<Rightarrow>
          if sint c = - (2 ^ 255) then Inl (Panic 0x11)
          else if uint (threshold (positions s pid)) \<le> \<bar>sint c\<bar>
            then triggerReactiveAction X e pid ''liquidity_threshold_exceeded''
                   (abi_encode_words3 a b c) s
          else Inr s)"
  by (auto simp: handleLiquidityUpdate_def checked_neg_def threshold_test [symmetric]
      split: sum.splits prod.splits)

lemma react_update_event:
  assumes pl: "parseLog log = Inr (sg, pid, d)"
    and sg: "sg = PRICE_UPDATE_SIGNATURE X \<or> sg = LIQUIDITY_UPDATE_SIGNATURE X"
    and dec: "abi_decode_words3 d = Inr (a, b, c)"
  shows "react X e log s =
     (if msg_value e \<noteq> 0 then Inl (Revert [])
      else if m_paused s then Inl (Revert ''Pausable: paused'')
      else if msg_sender e \<noteq> REACTIVE_SYSTEM
        then Inl (Revert ''Only Reactive Network can call react'')
      else if processedEvents s (keccak256 X (bytes_of_uint 32 sg @ bytes_of_uint 32 pid @ d))
        then Inl (Revert ''Event already processed'')
      else if \<not> isActive (positions s pid) then Inl (Revert ''Position not active'')
      else if sint c = - (2 ^ 255) then Inl (Panic 0x11)
      else if \<not> uint (threshold (positions s pid)) \<le> \<bar>sint c\<bar> then Inr (marked X sg pid d s)
      else if unat (totalReactiveActions s) + 1 < 2 ^ 256
           \<and> unat (totalGasUsed s) + unat (gasBudget (positions s pid)) < 2 ^ 256
        then Inr (triggered X e pid (marked X sg pid d s))
      else Inl (Panic 0x11))"
  using sg
  by (auto simp: react_def pl dec Let_def handlePriceUpdate_eq handleLiquidityUpdate_eq
      triggerReactiveAction_eq marked_def)

lemma handlePriceUpdate_keeps:
  "handlePriceUpdate X e pid d s = Inr s' \<Longrightarrow>
   processedEvents s' = processedEvents s \<and> m_paused s' = m_paused s"
  by (auto simp: handlePriceUpdate_eq triggerReactiveAction_eq triggered_def
      split: sum.splits prod.splits if_splits)

lemma handleLiquidityUpdate_keeps:
  "handleLiquidityUpdate X e pid d s = Inr s' \<Longrightarrow>
   processedEvents s' = processedEvents s \<and> m_paused s' = m_paused s"
  by (auto simp: handleLiquidityUpdate_eq triggerReactiveAction_eq triggered_def
      split: sum.splits prod.splits if_splits)

lemma handlePositionCreated_keeps:
  "handlePositionCreated pid d s = Inr s' \<Longrightarrow>
   processedEvents s' = processedEvents s \<and> m_paused s' = m_paused s"
  by (auto simp: handlePositionCreated_def)

lemma handlePriceUpdate_env:
  "handlePriceUpdate X e pid d s = Inl err \<Longrightarrow> handlePriceUpdate X e' pid d s = Inl err"
  by (auto simp: handlePriceUpdate_eq triggerReactiveAction_eq
      split: sum.splits prod.splits if_splits)

lemma handleLiquidityUpdate_env:
  "handleLiquidityUpdate X e pid d s = Inl err \<Longrightarrow> handleLiquidityUpdate X e' pid d s = Inl err"
  by (auto simp: handleLiquidityUpdate_eq triggerReactiveAction_eq
      split: sum.splits prod.splits if_splits)

text \<open>What \<open>react\<close> does once the envelope is parsed: the checks, the mark, the dispatch.\<close>

lemma react_parsed:
  assumes "parseLog log = Inr (sg, pid, d)"
  shows "react X e log s =
     (if msg_value e \<noteq> 0 then Inl (Revert [])
      else if m_paused s then Inl (Revert ''Pausable: paused'')
      else if msg_sender e \<noteq> REACTIVE_SYSTEM
        then Inl (Revert ''Only Reactive Network can call react'')
      else if processedEvents s (keccak256 X (bytes_of_uint 32 sg @ bytes_of_uint 32 pid @ d))
        then Inl (Revert ''Event already processed'')
      else if \<not> isActive (positions s pid) then Inl (Revert ''Position not active'')
      else if sg = PRICE_UPDATE_SIGNATURE X
        then handlePriceUpdate X e pid d (marked X sg pid d s)
      else if sg = LIQUIDITY_UPDATE_SIGNATURE X
        then handleLiquidityUpdate X e pid d (marked X sg pid d s)
      else if sg = POSITION_CREATED_SIGNATURE X
        then handlePositionCreated pid d (marked X sg pid d s)
      else Inr (marked X sg pid d s))"
  by (simp add: react_def assms Let_def marked_def)

lemma react_unparsed:
  assumes "parseLog log = Inl err"
  shows "react X e log s =
     (if msg_value e \<noteq> 0 then Inl (Revert [])
      else if m_paused s then Inl (Revert ''Pausable: paused'')
      else if msg_sender e \<noteq> REACTIVE_SYSTEM
        then Inl (Revert ''Only Reactive Network can call react'')
      else Inl err)"
  by (simp add: react_def assms)

lemma react_Inr_marked:
  assumes ok: "react X e log s = Inr s'"
  shows "msg_value e = 0 \<and> msg_sender e = REACTIVE_SYSTEM \<and> \<not> m_paused s'
    \<and> (\<exists>sg pid d. parseLog log = Inr (sg, pid, d)
          \<and> processedEvents s' (keccak256 X (bytes_of_uint 32 sg @ bytes_of_uint 32 pid @ d)))"
proof (cases "parseLog log")
  case (Inl err)
  then show ?thesis
    using ok by (simp add: react_unparsed split: if_splits)
next
  case (Inr p)
  obtain sg pid d where p: "p = (sg, pid, d)" by (cases p)
  note pl = Inr [unfolded p]
  let ?s1 = "marked X sg pid d s"
  have base: "msg_value e = 0" "msg_sender e = REACTIVE_SYSTEM" "\<not> m_paused s"
    using ok by (simp_all add: react_parsed [OF pl] split: if_splits)
  have keep: "processedEvents s' = processedEvents ?s1 \<and> m_paused s' = m_paused ?s1"
    using ok handlePriceUpdate_keeps [of X e pid d ?s1 s']
      handleLiquidityUpdate_keeps [of X e pid d ?s1 s']
      handlePositionCreated_keeps [of pid d ?s1 s']
    by (simp add: react_parsed [OF pl] split: if_splits)
  show ?thesis
    using base keep pl by (simp add: marked_def)
qed

lemma react_second:
  assumes "react X e log s = Inr s'"
    and "msg_sender e' = msg_sender e" and "msg_value e' = msg_value e"
  shows "react X e' log s' = Inl (Revert ''Event already processed'')"
proof -
  obtain sg pid d where pl: "parseLog log = Inr (sg, pid, d)"
    and m: "processedEvents s' (keccak256 X (bytes_of_uint 32 sg @ bytes_of_uint 32 pid @ d))"
    using react_Inr_marked [OF assms(1)] by blast
  show ?thesis
    using react_Inr_marked [OF assms(1)] assms(2,3) m
    by (simp add: react_parsed [OF pl])
qed

lemma react_Inl_env:
  assumes f: "react X e log s = Inl err"
    and se: "msg_sender e' = msg_sender e" and va: "msg_value e' = msg_value e"
  shows "react X e' log s = Inl err"
proof (cases "parseLog log")
  case (Inl err')
  then show ?thesis
    using assms by (auto simp: react_unparsed split: if_splits)
next
  case (Inr p)
  obtain sg pid d where p: "p = (sg, pid, d)" by (cases p)
  note pl = Inr [unfolded p]
  let ?s1 = "marked X sg pid d s"
  let ?h = "keccak256 X (bytes_of_uint 32 sg @ bytes_of_uint 32 pid @ d)"
  consider (val) "msg_value e \<noteq> 0"
    | (paused) "msg_value e = 0" "m_paused s"
    | (sender) "msg_value e = 0" "\<not> m_paused s" "msg_sender e \<noteq> REACTIVE_SYSTEM"
    | (seen) "msg_value e = 0" "\<not> m_paused s" "msg_sender e = REACTIVE_SYSTEM"
        "processedEvents s ?h"
    | (inactive) "msg_value e = 0" "\<not> m_paused s" "msg_sender e = REACTIVE_SYSTEM"
        "\<not> processedEvents s ?h" "\<not> isActive (positions s pid)"
    | (pass) "msg_value e = 0" "\<not> m_paused s" "msg_sender e = REACTIVE_SYSTEM"
        "\<not> processedEvents s ?h" "isActive (positions s pid)"
    by blast
  then show ?thesis
  proof cases
    case val
    then show ?thesis using f se va by (simp add: react_parsed [OF pl])
  next
    case paused
    then show ?thesis using f se va by (simp add: react_parsed [OF pl])
  next
    case sender
    then show ?thesis using f se va by (simp add: react_parsed [OF pl])
  next
    case seen
    then show ?thesis using f se va by (simp add: react_parsed [OF pl])
  next
    case inactive
    then show ?thesis using f se va by (simp add: react_parsed [OF pl])
  next
    case pass
    then have True: "msg_value e = 0 \<and> \<not> m_paused s \<and> msg_sender e = REACTIVE_SYSTEM
      \<and> \<not> processedEvents s ?h \<and> isActive (positions s pid)"
      by simp
    consider (price) "sg = PRICE_UPDATE_SIGNATURE X"
      | (liq) "sg \<noteq> PRICE_UPDATE_SIGNATURE X" "sg = LIQUIDITY_UPDATE_SIGNATURE X"
      | (other) "sg \<noteq> PRICE_UPDATE_SIGNATURE X" "sg \<noteq> LIQUIDITY_UPDATE_SIGNATURE X"
      by blast
    then show ?thesis
    proof cases
      case price
      then have "handlePriceUpdate X e pid d ?s1 = Inl err"
        using f True by (simp add: react_parsed [OF pl])
      then have "handlePriceUpdate X e' pid d ?s1 = Inl err"
        by (rule handlePriceUpdate_env)
      then show ?thesis
        using True price se va by (simp add: react_parsed [OF pl])
    next
      case liq
      then have "handleLiquidityUpdate X e pid d ?s1 = Inl err"
        using f True by (simp add: react_parsed [OF pl])
      then have "handleLiquidityUpdate X e' pid d ?s1 = Inl err"
        by (rule handleLiquidityUpdate_env)
      then show ?thesis
        using True liq se va by (simp add: react_parsed [OF pl])
    next
      case other
      then show ?thesis
        using f True by (simp add: react_parsed [OF pl] handlePositionCreated_def split: if_splits)
    qed
  qed
qed

lemma demo_price_event:
  assumes "uint delta < 2 ^ 255"
  shows "react demo_evm (call_env REACTIVE_SYSTEM 0) (price_log 7 a b delta) demo_manager
    = Inr (if 2 * 10 ^ 17 \<le> uint delta
           then triggered demo_evm (call_env REACTIVE_SYSTEM 0) 7
                  (marked demo_evm (PRICE_UPDATE_SIGNATURE demo_evm) 7
                     (abi_encode_words3 a b delta) demo_manager)
           else marked demo_evm (PRICE_UPDATE_SIGNATURE demo_evm) 7
                  (abi_encode_words3 a b delta) demo_manager)"
proof -
  have pl: "parseLog (price_log 7 a b delta)
      = Inr (PRICE_UPDATE_SIGNATURE demo_evm, 7, abi_encode_words3 a b delta)"
    by (simp add: price_log_def parseLog_encoded)
  have "- (2 ^ 255) \<le> uint delta"
    by (rule order_trans [of _ 0]) simp_all
  then have s: "sint delta = uint delta"
    using assms by (simp add: sint_uint signed_take_bit_int_eq_self)
  have "(0::int) \<le> uint delta" and "- (2 ^ 255) < (0::int)"
    by simp_all
  then have nn: "uint delta \<noteq> - (2 ^ 255)"
    by linarith
  show ?thesis
    using s nn
    by (simp add: react_update_event [OF pl _ abi_decode_encode_words3] call_env_def
        demo_manager_def demo_position_def)
qed

text \<open>
  C4. Take a price-update or liquidity-update event with decoded signed change \<open>delta\<close>,
  sent to \<open>react\<close> by the Reactive Network without value while the manager is not paused,
  not seen before, for an active position. Unless \<open>delta\<close> is the least \<open>int256\<close>
  (whose absolute value does not exist) or a counter would overflow, \<open>react\<close> returns,
  and the reactive action is triggered if and only if \<open>|delta|\<close> is at least the
  position's threshold, equality included. A trigger adds 1 to \<open>totalReactiveActions\<close>
  and the position's gas budget to \<open>totalGasUsed\<close> (neither wraps around) and stamps
  \<open>lastTriggered\<close>; without a trigger the counters, the positions and the event log
  are as before. In the two excluded cases the call panics and the event is not processed.
  Conversely, whenever \<open>react\<close> returns on such an event, all these conditions held and
  the action was triggered if and only if \<open>|delta|\<close> reached the threshold.
\<close>

theorem react_threshold_inclusive:
  assumes pl: "parseLog log = Inr (sg, pid, d)"
    and sg: "sg = PRICE_UPDATE_SIGNATURE X \<or> sg = LIQUIDITY_UPDATE_SIGNATURE X"
    and dec: "abi_decode_words3 d = Inr (oldVal, newVal, delta)"
  shows "(msg_value e = 0 \<and> \<not> m_paused s \<and> msg_sender e = REACTIVE_SYSTEM
          \<and> \<not> processedEvents s (keccak256 X (bytes_of_uint 32 sg @ bytes_of_uint 32 pid @ d))
          \<and> isActive (positions s pid) \<longrightarrow>
        (sint delta \<noteq> - (2 ^ 255) \<and> uint (threshold (positions s pid)) \<le> \<bar>sint delta\<bar>
           \<and> unat (totalReactiveActions s) + 1 < 2 ^ 256
           \<and> unat (totalGasUsed s) + unat (gasBudget (positions s pid)) < 2 ^ 256 \<longrightarrow>
          react X e log s = Inr (triggered X e pid (marked X sg pid d s))
          \<and> totalReactiveActions (after s (react X e log s)) = totalReactiveActions s + 1
          \<and> unat (totalReactiveActions (after s (react X e log s)))
              = unat (totalReactiveActions s) + 1
          \<and> totalGasUsed (after s (react X e log s))
              = totalGasUsed s + gasBudget (positions s pid)
          \<and> unat (totalGasUsed (after s (react X e log s)))
              = unat (totalGasUsed s) + unat (gasBudget (positions s pid))
          \<and> lastTriggered (positions (after s (react X e log s)) pid) = block_timestamp e)
        \<and> (sint delta \<noteq> - (2 ^ 255) \<and> \<not> uint (threshold (positions s pid)) \<le> \<bar>sint delta\<bar> \<longrightarrow>
          react X e log s = Inr (marked X sg pid d s)
          \<and> totalReactiveActions (after s (react X e log s)) = totalReactiveActions s
          \<and> totalGasUsed (after s (react X e log s)) = totalGasUsed s
          \<and> positions (after s (react X e log s)) = positions s
          \<and> m_events (after s (react X e log s)) = m_events s)
        \<and> (sint delta = - (2 ^ 255)
            \<or> uint (threshold (positions s pid)) \<le> \<bar>sint delta\<bar>
              \<and> \<not> (unat (totalReactiveActions s) + 1 < 2 ^ 256
                    \<and> unat (totalGasUsed s) + unat (gasBudget (positions s pid)) < 2 ^ 256) \<longrightarrow>
          react X e log s = Inl (Panic 0x11)))
    \<and> (\<forall>s'. react X e log s = Inr s' \<longrightarrow>
          msg_value e = 0 \<and> \<not> m_paused s \<and> msg_sender e = REACTIVE_SYSTEM
          \<and> \<not> processedEvents s (keccak256 X (bytes_of_uint 32 sg @ bytes_of_uint 32 pid @ d))
          \<and> isActive (positions s pid)
          \<and> sint delta \<noteq> - (2 ^ 255)
          \<and> s' = (if uint (threshold (positions s pid)) \<le> \<bar>sint delta\<bar>
                   then triggered X e pid (marked X sg pid d s) else marked X sg pid d s)
          \<and> (totalReactiveActions s' = totalReactiveActions s + 1)
               = (uint (threshold (positions s pid)) \<le> \<bar>sint delta\<bar>)
          \<and> (uint (threshold (positions s pid)) \<le> \<bar>sint delta\<bar> \<longrightarrow>
               unat (totalReactiveActions s') = unat (totalReactiveActions s) + 1
               \<and> totalGasUsed s' = totalGasUsed s + gasBudget (positions s pid)
               \<and> unat (totalGasUsed s') = unat (totalGasUsed s) + unat (gasBudget (positions s pid))
               \<and> lastTriggered (positions s' pid) = block_timestamp e)
          \<and> (\<not> uint (threshold (positions s pid)) \<le> \<bar>sint delta\<bar> \<longrightarrow>
               totalReactiveActions s' = totalReactiveActions s
               \<and> totalGasUsed s' = totalGasUsed s
               \<and> positions s' = positions s
               \<and> m_events s' = m_events s))"
proof -
  note ev = react_update_event [OF pl sg dec, of e s]
  have one: "unat (totalReactiveActions s + 1) = unat (totalReactiveActions s) + 1"
    if "unat (totalReactiveActions s) + 1 < 2 ^ 256"
    using that unat_add_lem [of "totalReactiveActions s" 1] by simp
  have gas: "unat (totalGasUsed s + gasBudget (positions s pid))
      = unat (totalGasUsed s) + unat (gasBudget (positions s pid))"
    if "unat (totalGasUsed s) + unat (gasBudget (positions s pid)) < 2 ^ 256"
    using that unat_add_lem [of "totalGasUsed s" "gasBudget (positions s pid)"] by simp
  have hit: "react X e log s = Inr (triggered X e pid (marked X sg pid d s))
          \<and> totalReactiveActions (after s (react X e log s)) = totalReactiveActions s + 1
          \<and> unat (totalReactiveActions (after s (react X e log s)))
              = unat (totalReactiveActions s) + 1
          \<and> totalGasUsed (after s (react X e log s))
              = totalGasUsed s + gasBudget (positions s pid)
          \<and> unat (totalGasUsed (after s (react X e log s)))
              = unat (totalGasUsed s) + unat (gasBudget (positions s pid))
          \<and> lastTriggered (positions (after s (react X e log s)) pid) = block_timestamp e"
    if c: "msg_value e = 0 \<and> \<not> m_paused s \<and> msg_sender e = REACTIVE_SYSTEM
          \<and> \<not> processedEvents s (keccak256 X (bytes_of_uint 32 sg @ bytes_of_uint 32 pid @ d))
          \<and> isActive (positions s pid)"
      and t: "sint delta \<noteq> - (2 ^ 255) \<and> uint (threshold (positions s pid)) \<le> \<bar>sint delta\<bar>
           \<and> unat (totalReactiveActions s) + 1 < 2 ^ 256
           \<and> unat (totalGasUsed s) + unat (gasBudget (positions s pid)) < 2 ^ 256"
  proof -
    have r: "react X e log s = Inr (triggered X e pid (marked X sg pid d s))"
      unfolding ev using c t by simp
    show ?thesis
      unfolding r after_Inr using one gas t by (simp add: triggered_def marked_def)
  qed
  have miss: "react X e log s = Inr (marked X sg pid d s)
          \<and> totalReactiveActions (after s (react X e log s)) = totalReactiveActions s
          \<and> totalGasUsed (after s (react X e log s)) = totalGasUsed s
          \<and> positions (after s (react X e log s)) = positions s
          \<and> m_events (after s (react X e log s)) = m_events s"
    if c: "msg_value e = 0 \<and> \<not> m_paused s \<and> msg_sender e = REACTIVE_SYSTEM
          \<and> \<not> processedEvents s (keccak256 X (bytes_of_uint 32 sg @ bytes_of_uint 32 pid @ d))
          \<and> isActive (positions s pid)"
      and t: "sint delta \<noteq> - (2 ^ 255) \<and> \<not> uint (threshold (positions s pid)) \<le> \<bar>sint delta\<bar>"
  proof -
    have r: "react X e log s = Inr (marked X sg pid d s)"
      unfolding ev using c t by simp
    show ?thesis
      unfolding r after_Inr by (simp add: marked_def)
  qed
  have panic: "react X e log s = Inl (Panic 0x11)"
    if c: "msg_value e = 0 \<and> \<not> m_paused s \<and> msg_sender e = REACTIVE_SYSTEM
          \<and> \<not> processedEvents s (keccak256 X (bytes_of_uint 32 sg @ bytes_of_uint 32 pid @ d))
          \<and> isActive (positions s pid)"
      and t: "sint delta = - (2 ^ 255)
            \<or> uint (threshold (positions s pid)) \<le> \<bar>sint delta\<bar>
              \<and> \<not> (unat (totalReactiveActions s) + 1 < 2 ^ 256
                    \<and> unat (totalGasUsed s) + unat (gasBudget (positions s pid)) < 2 ^ 256)"
    unfolding ev using c t by auto
  have conv: "msg_value e = 0 \<and> \<not> m_paused s \<and> msg_sender e = REACTIVE_SYSTEM
          \<and> \<not> processedEvents s (keccak256 X (bytes_of_uint 32 sg @ bytes_of_uint 32 pid @ d))
          \<and> isActive (positions s pid)
          \<and> sint delta \<noteq> - (2 ^ 255)
          \<and> s' = (if uint (threshold (positions s pid)) \<le> \<bar>sint delta\<bar>
                   then triggered X e pid (marked X sg pid d s) else marked X sg pid d s)
          \<and> (totalReactiveActions s' = totalReactiveActions s + 1)
               = (uint (threshold (positions s pid)) \<le> \<bar>sint delta\<bar>)
          \<and> (uint (threshold (positions s pid)) \<le> \<bar>sint delta\<bar> \<longrightarrow>
               unat (totalReactiveActions s') = unat (totalReactiveActions s) + 1
               \<and> totalGasUsed s' = totalGasUsed s + gasBudget (positions s pid)
               \<and> unat (totalGasUsed s') = unat (totalGasUsed s) + unat (gasBudget (positions s pid))
               \<and> lastTriggered (positions s' pid) = block_timestamp e)
          \<and> (\<not> uint (threshold (positions s pid)) \<le> \<bar>sint delta\<bar> \<longrightarrow>
               totalReactiveActions s' = totalReactiveActions s
               \<and> totalGasUsed s' = totalGasUsed s
               \<and> positions s' = positions s
               \<and> m_events s' = m_events s)"
    if ok: "react X e log s = Inr s'" for s'
  proof -
    note r = ok [unfolded ev]
    have c: "msg_value e = 0 \<and> \<not> m_paused s \<and> msg_sender e = REACTIVE_SYSTEM
          \<and> \<not> processedEvents s (keccak256 X (bytes_of_uint 32 sg @ bytes_of_uint 32 pid @ d))
          \<and> isActive (positions s pid) \<and> sint delta \<noteq> - (2 ^ 255)"
      using r by (auto split: if_splits)
    have s': "s' = (if uint (threshold (positions s pid)) \<le> \<bar>sint delta\<bar>
             then triggered X e pid (marked X sg pid d s) else marked X sg pid d s)"
      using r by (auto split: if_splits)
    have nov: "uint (threshold (positions s pid)) \<le> \<bar>sint delta\<bar> \<Longrightarrow>
        unat (totalReactiveActions s) + 1 < 2 ^ 256
        \<and> unat (totalGasUsed s) + unat (gasBudget (positions s pid)) < 2 ^ 256"
      using r by (auto split: if_splits)
    show ?thesis
      using c s' nov one gas by (simp add: triggered_def marked_def)
  qed
  show ?thesis
    using hit miss panic conv by blast
qed

theorem react_threshold_inclusive_witness:
  "PRICE_UPDATE_SIGNATURE demo_evm \<noteq> LIQUIDITY_UPDATE_SIGNATURE demo_evm
   \<and> \<not> isl (react demo_evm (call_env REACTIVE_SYSTEM 0)
       (price_log 7 (2 * 10 ^ 18) (22 * 10 ^ 17) (2 * 10 ^ 17)) demo_manager)
   \<and> totalReactiveActions (after demo_manager (react demo_evm (call_env REACTIVE_SYSTEM 0)
       (price_log 7 (2 * 10 ^ 18) (22 * 10 ^ 17) (2 * 10 ^ 17)) demo_manager)) = 1
   \<and> totalGasUsed (after demo_manager (react demo_evm (call_env REACTIVE_SYSTEM 0)
       (price_log 7 (2 * 10 ^ 18) (22 * 10 ^ 17) (2 * 10 ^ 17)) demo_manager)) = 10 ^ 17
   \<and> lastTriggered (positions (after demo_manager (react demo_evm (call_env REACTIVE_SYSTEM 0)
       (price_log 7 (2 * 10 ^ 18) (22 * 10 ^ 17) (2 * 10 ^ 17)) demo_manager)) 7) = 2000
   \<and> \<not> isl (react demo_evm (call_env REACTIVE_SYSTEM 0)
       (price_log 7 (2 * 10 ^ 18) (22 * 10 ^ 17) (2 * 10 ^ 17 - 1)) demo_manager)
   \<and> totalReactiveActions (after demo_manager (react demo_evm (call_env REACTIVE_SYSTEM 0)
       (price_log 7 (2 * 10 ^ 18) (22 * 10 ^ 17) (2 * 10 ^ 17 - 1)) demo_manager)) = 0
   \<and> totalGasUsed (after demo_manager (react demo_evm (call_env REACTIVE_SYSTEM 0)
       (price_log 7 (2 * 10 ^ 18) (22 * 10 ^ 17) (2 * 10 ^ 17 - 1)) demo_manager)) = 0
   \<and> \<not> isl (react demo_evm (call_env REACTIVE_SYSTEM 0)
       (liquidity_log 7 (10 ^ 18) (8 * 10 ^ 17) (- (2 * 10 ^ 17))) demo_manager)
   \<and> totalReactiveActions (after demo_manager (react demo_evm (call_env REACTIVE_SYSTEM 0)
       (liquidity_log 7 (10 ^ 18) (8 * 10 ^ 17) (- (2 * 10 ^ 17))) demo_manager)) = 1
   \<and> totalGasUsed (after demo_manager (react demo_evm (call_env REACTIVE_SYSTEM 0)
       (liquidity_log 7 (10 ^ 18) (8 * 10 ^ 17) (- (2 * 10 ^ 17))) demo_manager)) = 10 ^ 17
   \<and> \<not> isl (react demo_evm (call_env REACTIVE_SYSTEM 0)
       (liquidity_log 7 (10 ^ 18) (8 * 10 ^ 17 + 1) (1 - 2 * 10 ^ 17)) demo_manager)
   \<and> totalReactiveActions (after demo_manager (react demo_evm (call_env REACTIVE_SYSTEM 0)
       (liquidity_log 7 (10 ^ 18) (8 * 10 ^ 17 + 1) (1 - 2 * 10 ^ 17)) demo_manager)) = 0
   \<and> totalGasUsed (after demo_manager (react demo_evm (call_env REACTIVE_SYSTEM 0)
       (liquidity_log 7 (10 ^ 18) (8 * 10 ^ 17 + 1) (1 - 2 * 10 ^ 17)) demo_manager)) = 0
   \<and> react demo_evm (call_env REACTIVE_SYSTEM 0) (liquidity_log 7 (2 ^ 255) 0 (2 ^ 255)) demo_manager
       = Inl (Panic 0x11)"
proof -
  let ?e = "call_env REACTIVE_SYSTEM 0"
  let ?thr = "uint (threshold (positions demo_manager 7))"
  have ne: "PRICE_UPDATE_SIGNATURE demo_evm \<noteq> LIQUIDITY_UPDATE_SIGNATURE demo_evm"
    by (simp add: PRICE_UPDATE_SIGNATURE_def LIQUIDITY_UPDATE_SIGNATURE_def demo_evm_def
        demo_keccak256_def bytes_of_string_def)
  have pp: "parseLog (price_log 7 a b c)
      = Inr (PRICE_UPDATE_SIGNATURE demo_evm, 7, abi_encode_words3 a b c)" for a b c
    by (simp add: price_log_def parseLog_encoded)
  have pq: "parseLog (liquidity_log 7 a b c)
      = Inr (LIQUIDITY_UPDATE_SIGNATURE demo_evm, 7, abi_encode_words3 a b c)" for a b c
    by (simp add: liquidity_log_def parseLog_encoded)
  have sp: "PRICE_UPDATE_SIGNATURE demo_evm = PRICE_UPDATE_SIGNATURE demo_evm
      \<or> PRICE_UPDATE_SIGNATURE demo_evm = LIQUIDITY_UPDATE_SIGNATURE demo_evm"
    and sq: "LIQUIDITY_UPDATE_SIGNATURE demo_evm = PRICE_UPDATE_SIGNATURE demo_evm
      \<or> LIQUIDITY_UPDATE_SIGNATURE demo_evm = LIQUIDITY_UPDATE_SIGNATURE demo_evm"
    by simp_all
  have c: "msg_value ?e = 0 \<and> \<not> m_paused demo_manager \<and> msg_sender ?e = REACTIVE_SYSTEM
      \<and> \<not> processedEvents demo_manager h \<and> isActive (positions demo_manager 7)" for h
    by (simp add: call_env_def demo_manager_def demo_position_def)
  have room: "unat (totalReactiveActions demo_manager) + 1 < 2 ^ 256
      \<and> unat (totalGasUsed demo_manager) + unat (gasBudget (positions demo_manager 7)) < 2 ^ 256"
    by (simp add: demo_manager_def demo_position_def)
  have s1: "sint (2 * 10 ^ 17 :: int256) = 2 * 10 ^ 17"
    and s2: "sint (2 * 10 ^ 17 - 1 :: int256) = 2 * 10 ^ 17 - 1"
    and s3: "sint (- (2 * 10 ^ 17) :: int256) = - (2 * 10 ^ 17)"
    and s4: "sint (1 - 2 * 10 ^ 17 :: int256) = 1 - 2 * 10 ^ 17"
    and s5: "sint (2 ^ 255 :: int256) = - (2 ^ 255)"
    by simp_all
  have thr: "?thr = 2 * 10 ^ 17"
    by (simp add: demo_manager_def demo_position_def)
  have t1: "sint (2 * 10 ^ 17 :: int256) \<noteq> - (2 ^ 255)
      \<and> ?thr \<le> \<bar>sint (2 * 10 ^ 17 :: int256)\<bar>"
    and t2: "sint (2 * 10 ^ 17 - 1 :: int256) \<noteq> - (2 ^ 255)
      \<and> \<not> ?thr \<le> \<bar>sint (2 * 10 ^ 17 - 1 :: int256)\<bar>"
    and t3: "sint (- (2 * 10 ^ 17) :: int256) \<noteq> - (2 ^ 255)
      \<and> ?thr \<le> \<bar>sint (- (2 * 10 ^ 17) :: int256)\<bar>"
    and t4: "sint (1 - 2 * 10 ^ 17 :: int256) \<noteq> - (2 ^ 255)
      \<and> \<not> ?thr \<le> \<bar>sint (1 - 2 * 10 ^ 17 :: int256)\<bar>"
    unfolding thr s1 s2 s3 s4 by simp_all
  let ?ph = "react demo_evm ?e (price_log 7 (2 * 10 ^ 18) (22 * 10 ^ 17) (2 * 10 ^ 17)) demo_manager"
  let ?pm = "react demo_evm ?e (price_log 7 (2 * 10 ^ 18) (22 * 10 ^ 17) (2 * 10 ^ 17 - 1))
      demo_manager"
  let ?lh = "react demo_evm ?e (liquidity_log 7 (10 ^ 18) (8 * 10 ^ 17) (- (2 * 10 ^ 17)))
      demo_manager"
  let ?lm = "react demo_evm ?e (liquidity_log 7 (10 ^ 18) (8 * 10 ^ 17 + 1) (1 - 2 * 10 ^ 17))
      demo_manager"
  have h1: "(\<exists>s'. ?ph = Inr s')
      \<and> totalReactiveActions (after demo_manager ?ph) = totalReactiveActions demo_manager + 1
      \<and> totalGasUsed (after demo_manager ?ph)
          = totalGasUsed demo_manager + gasBudget (positions demo_manager 7)
      \<and> lastTriggered (positions (after demo_manager ?ph) 7) = block_timestamp ?e"
    using react_threshold_inclusive [where X = demo_evm and e = ?e and s = demo_manager,
        OF pp sp abi_decode_encode_words3] c room t1 by blast
  have h2: "(\<exists>s'. ?pm = Inr s')
      \<and> totalReactiveActions (after demo_manager ?pm) = totalReactiveActions demo_manager
      \<and> totalGasUsed (after demo_manager ?pm) = totalGasUsed demo_manager"
    using react_threshold_inclusive [where X = demo_evm and e = ?e and s = demo_manager,
        OF pp sp abi_decode_encode_words3] c t2 by blast
  have h3: "(\<exists>s'. ?lh = Inr s')
      \<and> totalReactiveActions (after demo_manager ?lh) = totalReactiveActions demo_manager + 1
      \<and> totalGasUsed (after demo_manager ?lh)
          = totalGasUsed demo_manager + gasBudget (positions demo_manager 7)"
    using react_threshold_inclusive [where X = demo_evm and e = ?e and s = demo_manager,
        OF pq sq abi_decode_encode_words3] c room t3 by blast
  have h4: "(\<exists>s'. ?lm = Inr s')
      \<and> totalReactiveActions (after demo_manager ?lm) = totalReactiveActions demo_manager
      \<and> totalGasUsed (after demo_manager ?lm) = totalGasUsed demo_manager"
    using react_threshold_inclusive [where X = demo_evm and e = ?e and s = demo_manager,
        OF pq sq abi_decode_encode_words3] c t4 by blast
  have h5: "react demo_evm ?e (liquidity_log 7 (2 ^ 255) 0 (2 ^ 255)) demo_manager
      = Inl (Panic 0x11)"
    using react_threshold_inclusive [where X = demo_evm and e = ?e and s = demo_manager,
        OF pq sq abi_decode_encode_words3] c s5 by blast
  have i: "\<not> isl ?ph" "\<not> isl ?pm" "\<not> isl ?lh" "\<not> isl ?lm"
    using h1 h2 h3 h4 by auto
  have v: "totalReactiveActions demo_manager = 0" "totalGasUsed demo_manager = 0"
    "gasBudget (positions demo_manager 7) = 10 ^ 17" "block_timestamp ?e = 2000"
    by (simp_all add: demo_manager_def demo_position_def call_env_def)
  have k1: "totalReactiveActions (after demo_manager ?ph) = 1"
    "totalGasUsed (after demo_manager ?ph) = 10 ^ 17"
    "lastTriggered (positions (after demo_manager ?ph) 7) = 2000"
    using h1 unfolding v by simp_all
  have k2: "totalReactiveActions (after demo_manager ?pm) = 0"
    "totalGasUsed (after demo_manager ?pm) = 0"
    using h2 unfolding v by simp_all
  have k3: "totalReactiveActions (after demo_manager ?lh) = 1"
    "totalGasUsed (after demo_manager ?lh) = 10 ^ 17"
    using h3 unfolding v by simp_all
  have k4: "totalReactiveActions (after demo_manager ?lm) = 0"
    "totalGasUsed (after demo_manager ?lm) = 0"
    using h4 unfolding v by simp_all
  show ?thesis
    by (intro conjI ne i k1 k2 k3 k4 h5)
qed


text \<open>
  C1, as claimed: for every payload the second of two \<open>react\<close> calls fails with "Event
  already processed". It is not so when the first call is itself rejected: a rejected call
  records nothing. On the example, a payload for a position that is not registered is
  rejected with "Position not active" the first time and the second time alike.
\<close>

theorem react_rejected_twice:
  "react demo_evm (call_env REACTIVE_SYSTEM 0) unknown_log demo_manager
     = Inl (Revert ''Position not active'')
   \<and> after demo_manager (react demo_evm (call_env REACTIVE_SYSTEM 0) unknown_log demo_manager)
     = demo_manager
   \<and> react demo_evm (call_env REACTIVE_SYSTEM 0) unknown_log
       (after demo_manager (react demo_evm (call_env REACTIVE_SYSTEM 0) unknown_log demo_manager))
     = Inl (Revert ''Position not active'')
   \<and> react demo_evm (call_env REACTIVE_SYSTEM 0) unknown_log
       (after demo_manager (react demo_evm (call_env REACTIVE_SYSTEM 0) unknown_log demo_manager))
     \<noteq> Inl (Revert ''Event already processed'')"
proof -
  have pl: "parseLog unknown_log = Inr (PRICE_UPDATE_SIGNATURE demo_evm, 8,
      abi_encode_words3 (2 * 10 ^ 18) (25 * 10 ^ 17) (25 * 10 ^ 16))"
    by (simp add: unknown_log_def price_log_def parseLog_encoded)
  have r: "react demo_evm (call_env REACTIVE_SYSTEM 0) unknown_log demo_manager
     = Inl (Revert ''Position not active'')"
    by (simp add: react_parsed [OF pl] call_env_def demo_manager_def zero_Position_def)
  show ?thesis
    by (simp add: r after_def)
qed

text \<open>
  C1, amended. For every payload, calling \<open>react\<close> twice from the same sender (at any
  two block timestamps) leaves the state that calling it once leaves. When the first call
  succeeds, the second fails with "Event already processed" and changes nothing; when the
  first call is rejected, nothing is recorded and the second call is rejected with the
  same error.
\<close>

theorem react_idempotent:
  assumes "msg_sender e' = msg_sender e" and "msg_value e' = msg_value e"
  shows "after (after s (react X e log s)) (react X e' log (after s (react X e log s)))
           = after s (react X e log s)
    \<and> (\<forall>s1. react X e log s = Inr s1 \<longrightarrow>
          react X e' log s1 = Inl (Revert ''Event already processed''))
    \<and> (\<forall>err. react X e log s = Inl err \<longrightarrow> react X e' log s = Inl err)"
proof (cases "react X e log s")
  case (Inl err)
  then show ?thesis
    using react_Inl_env [OF Inl assms] by (simp add: after_def)
next
  case (Inr s1)
  then show ?thesis
    using react_second [OF Inr assms] by (simp add: after_def)
qed

theorem react_idempotent_witness:
  "react demo_evm (call_env REACTIVE_SYSTEM 0)
       (price_log 7 (2 * 10 ^ 18) (25 * 10 ^ 17) (25 * 10 ^ 16))
       (after demo_manager (react demo_evm (call_env REACTIVE_SYSTEM 0)
          (price_log 7 (2 * 10 ^ 18) (25 * 10 ^ 17) (25 * 10 ^ 16)) demo_manager))
     = Inl (Revert ''Event already processed'')
   \<and> totalReactiveActions (after demo_manager (react demo_evm (call_env REACTIVE_SYSTEM 0)
          (price_log 7 (2 * 10 ^ 18) (25 * 10 ^ 17) (25 * 10 ^ 16)) demo_manager)) = 1
   \<and> react demo_evm (call_env REACTIVE_SYSTEM 0) unknown_log demo_manager
     = Inl (Revert ''Position not active'')"
proof -
  let ?e = "call_env REACTIVE_SYSTEM 0"
  let ?log = "price_log 7 (2 * 10 ^ 18) (25 * 10 ^ 17) (25 * 10 ^ 16)"
  have r: "react demo_evm ?e ?log demo_manager
    = Inr (triggered demo_evm ?e 7 (marked demo_evm (PRICE_UPDATE_SIGNATURE demo_evm) 7
             (abi_encode_words3 (2 * 10 ^ 18) (25 * 10 ^ 17) (25 * 10 ^ 16)) demo_manager))"
    using demo_price_event [of "25 * 10 ^ 16"] by simp
  have two: "react demo_evm ?e ?log
       (triggered demo_evm ?e 7 (marked demo_evm (PRICE_UPDATE_SIGNATURE demo_evm) 7
             (abi_encode_words3 (2 * 10 ^ 18) (25 * 10 ^ 17) (25 * 10 ^ 16)) demo_manager))
     = Inl (Revert ''Event already processed'')"
    using react_idempotent [OF refl refl, where X = demo_evm and e = ?e and log = ?log
        and s = demo_manager] r by blast
  have pl: "parseLog unknown_log = Inr (PRICE_UPDATE_SIGNATURE demo_evm, 8,
      abi_encode_words3 (2 * 10 ^ 18) (25 * 10 ^ 17) (25 * 10 ^ 16))"
    by (simp add: unknown_log_def price_log_def parseLog_encoded)
  have u: "react demo_evm ?e unknown_log demo_manager = Inl (Revert ''Position not active'')"
    by (simp add: react_parsed [OF pl] call_env_def demo_manager_def zero_Position_def)
  have u': "react demo_evm ?e unknown_log demo_manager = Inl (Revert ''Position not active'')"
    using react_idempotent [OF refl refl, where X = demo_evm and e = ?e and log = unknown_log
        and s = demo_manager] u by blast
  show ?thesis
    unfolding r after_Inr
    using two u' by (simp add: triggered_def marked_def demo_manager_def)
qed

section \<open>Price updates on the origin registry\<close>

lemma sint_small: "uint (w::int256) < 2 ^ 255 \<Longrightarrow> sint w = uint w"
proof -
  assume a: "uint w < 2 ^ 255"
  have "- (2 ^ 255) \<le> uint w"
    by (rule order_trans [of _ 0]) simp_all
  then show ?thesis
    using a by (simp add: sint_uint signed_take_bit_int_eq_self)
qed

lemma sint_big: "2 ^ 255 \<le> uint (w::int256) \<Longrightarrow> sint w = uint w - 2 ^ 256"
proof -
  assume a: "2 ^ 255 \<le> uint w"
  have lt: "uint w < 2 ^ 256"
    using uint_lt2p [of w] by simp
  have "(word_of_int (2 ^ 256) :: int256) = 0"
    using word_of_int_2p_len [where 'a = 256] by simp
  then have "w = word_of_int (uint w - 2 ^ 256)"
    by (simp only: wi_hom_sub [symmetric] word_of_int_uint diff_zero)
  then have "sint w = sint (word_of_int (uint w - 2 ^ 256) :: int256)"
    by (rule arg_cong)
  also have "\<dots> = signed_take_bit (LENGTH(256) - 1) (uint w - 2 ^ 256)"
    by (rule sint_sbintrunc')
  also have "\<dots> = signed_take_bit 255 (uint w - 2 ^ 256)"
    by simp
  also have "\<dots> = uint w - 2 ^ 256"
    using a lt by (intro signed_take_bit_int_eq_self) simp_all
  finally show ?thesis .
qed

lemma unat_PRICE_PRECISION: "unat PRICE_PRECISION = 10 ^ 18"
  by (simp add: PRICE_PRECISION_def)

lemma rising_q:
  assumes lt: "old < new" and pos: "0 < old"
    and nov: "(unat new - unat old) * 10 ^ 18 < 2 ^ 256"
  shows "priceChange_of old new = Inr (((new - old) * PRICE_PRECISION) div old)
    \<and> unat (((new - old) * PRICE_PRECISION) div old)
        = ((unat new - unat old) * 10 ^ 18) div unat old"
proof -
  have le: "old \<le> new" using lt by simp
  have d: "unat (new - old) = unat new - unat old"
    using le by (simp add: unat_sub)
  have m: "unat ((new - old) * PRICE_PRECISION) = (unat new - unat old) * 10 ^ 18"
    using nov unat_mult_lem [of "new - old" PRICE_PRECISION]
    by (simp add: d unat_PRICE_PRECISION)
  have q: "unat (((new - old) * PRICE_PRECISION) div old)
      = ((unat new - unat old) * 10 ^ 18) div unat old"
    by (simp add: unat_div m)
  have "priceChange_of old new = Inr (((new - old) * PRICE_PRECISION) div old)"
    using lt le pos nov
    by (simp add: priceChange_of_def checked_sub_def checked_mul_def checked_div_def d
        unat_PRICE_PRECISION)
  with q show ?thesis by simp
qed

lemma falling_q:
  assumes le: "new \<le> old" and npos: "0 < new"
    and nov: "(unat old - unat new) * 10 ^ 18 < 2 ^ 256"
  shows "priceChange_of old new = Inr (- (((old - new) * PRICE_PRECISION) div old))
    \<and> unat (((old - new) * PRICE_PRECISION) div old)
        = ((unat old - unat new) * 10 ^ 18) div unat old
    \<and> ((unat old - unat new) * 10 ^ 18) div unat old < 10 ^ 18"
proof -
  let ?q = "((old - new) * PRICE_PRECISION) div old"
  have pos: "0 < old" using npos le by (rule less_le_trans)
  have upos: "0 < unat new" "0 < unat old"
    using npos pos by (simp_all add: unat_gt_0 word_neq_0_conv)
  have d: "unat (old - new) = unat old - unat new"
    using le by (simp add: unat_sub)
  have m: "unat ((old - new) * PRICE_PRECISION) = (unat old - unat new) * 10 ^ 18"
    using nov unat_mult_lem [of "old - new" PRICE_PRECISION]
    by (simp add: d unat_PRICE_PRECISION)
  have q: "unat ?q = ((unat old - unat new) * 10 ^ 18) div unat old"
    by (simp add: unat_div m)
  have "unat old - unat new < unat old"
    using upos by simp
  then have "(unat old - unat new) * 10 ^ 18 < 10 ^ 18 * unat old"
    by simp
  then have small: "((unat old - unat new) * 10 ^ 18) div unat old < 10 ^ 18"
    using upos(2) by (simp add: div_less_iff_less_mult)
  have "int (unat ?q) < 10 ^ 18"
    using small unfolding q by (simp only: of_nat_less_numeral_power_cancel_iff)
  then have "uint ?q < 10 ^ 18"
    by (simp only: uint_nat)
  then have "uint ?q < 2 ^ 255"
    by simp
  then have s: "sint ?q = uint ?q"
    by (rule sint_small)
  have "(0::int) \<le> uint ?q" and "- (2 ^ 255) < (0::int)"
    by simp_all
  then have ne: "sint ?q \<noteq> - (2 ^ 255)"
    unfolding s by linarith
  have nz: "old \<noteq> 0" "new \<noteq> 0"
    using pos npos by auto
  have "priceChange_of old new = Inr (- ?q)"
    using le nz nov ne
    by (simp add: priceChange_of_def checked_sub_def checked_mul_def checked_div_def
        checked_neg_def d unat_PRICE_PRECISION not_less)
  with q small show ?thesis by simp
qed

lemma sdiv_nonneg_pos: "0 \<le> k \<Longrightarrow> 0 < l \<Longrightarrow> (k::int) sdiv l = k div l"
  by (cases "k = 0") (simp_all add: signed_divide_int_def)

lemma sdiv_nonpos_pos: "k \<le> 0 \<Longrightarrow> 0 < l \<Longrightarrow> (k::int) sdiv l = - ((- k) div l)"
  by (cases "k = 0") (simp_all add: signed_divide_int_def)

lemma spec_delta_rising:
  assumes "a < b" and "0 < a"
  shows "spec_price_delta (int a) (int b) = int (((b - a) * 10 ^ 18) div a)"
proof -
  have e: "(int b - int a) * 10 ^ 18 = int ((b - a) * 10 ^ 18)"
    using assms(1) by (simp add: of_nat_diff)
  have "spec_price_delta (int a) (int b) = int ((b - a) * 10 ^ 18) sdiv int a"
    unfolding spec_price_delta_def e ..
  also have "\<dots> = int ((b - a) * 10 ^ 18) div int a"
    using assms(2) by (intro sdiv_nonneg_pos) simp_all
  also have "\<dots> = int (((b - a) * 10 ^ 18) div a)"
    by (rule zdiv_int [symmetric])
  finally show ?thesis .
qed

lemma spec_delta_falling:
  assumes "b \<le> a" and "0 < a"
  shows "spec_price_delta (int a) (int b) = - int (((a - b) * 10 ^ 18) div a)"
proof -
  have e: "(int b - int a) * 10 ^ 18 = - int ((a - b) * 10 ^ 18)"
    using assms(1) by (simp add: of_nat_diff algebra_simps)
  have "spec_price_delta (int a) (int b) = (- int ((a - b) * 10 ^ 18)) sdiv int a"
    unfolding spec_price_delta_def e ..
  also have "\<dots> = - ((- (- int ((a - b) * 10 ^ 18))) div int a)"
    using assms(2) by (intro sdiv_nonpos_pos) simp_all
  also have "\<dots> = - (int ((a - b) * 10 ^ 18) div int a)"
    by simp
  also have "\<dots> = - int (((a - b) * 10 ^ 18) div a)"
    by (simp only: zdiv_int)
  finally show ?thesis .
qed


lemma wrap_is_rejected:
  fixes d a :: nat
  assumes nov: "d * 10 ^ 18 < 2 ^ 256" and pos: "0 < a"
    and big: "2 ^ 255 \<le> (d * 10 ^ 18) div a"
  shows "5 * 10 ^ 17 < (2::nat) ^ 256 - (d * 10 ^ 18) div a"
proof -
  have a1: "a = 1"
  proof (rule ccontr)
    assume "a \<noteq> 1"
    then have "2 \<le> a" using pos by simp
    then have "(d * 10 ^ 18) div a \<le> (d * 10 ^ 18) div 2"
      by (rule div_le_mono2 [rotated]) simp
    also have "\<dots> < 2 ^ 255"
      using nov by simp
    finally show False using big by simp
  qed
  have "d * 10 ^ 18 \<le> 2 ^ 256 - 1"
    using nov by simp
  then have "(d * 10 ^ 18) div 10 ^ 18 \<le> ((2::nat) ^ 256 - 1) div 10 ^ 18"
    by (rule div_le_mono)
  then have "d \<le> 115792089237316195423570985008687907853269984665640564039457"
    by simp
  then have "d * 10 ^ 18 \<le> 115792089237316195423570985008687907853269984665640564039457 * 10 ^ 18"
    by simp
  then have "d * 10 ^ 18 + 5 * 10 ^ 17 < 2 ^ 256"
    by simp
  then show ?thesis
    unfolding a1 by simp
qed


lemma abs_int256_eq:
  "abs_int256 x = (if sint x = - (2 ^ 255) then Inl (Panic 0x11)
                   else Inr (if sint x < 0 then - x else x))"
  by (simp add: abs_int256_def checked_neg_def not_le)

lemma le_MAX_PRICE_CHANGE:
  "((if sint x < 0 then - x else x) \<le> MAX_PRICE_CHANGE) = (\<bar>sint x\<bar> \<le> 50 * 10 ^ 16)"
proof -
  have "uint MAX_PRICE_CHANGE = 50 * 10 ^ 16"
    by (simp add: MAX_PRICE_CHANGE_def)
  then show ?thesis
    by (simp only: word_le_def abs_int256_uint)
qed

lemma updatePrice_eq:
  assumes "msg_value e = 0" and "msg_sender e = o_owner s"
    and "o_isActive (o_positions s pid)" and "0 < newPrice"
  shows "updatePrice e pid newPrice s =
    (case priceChange_of (currentPrice (o_positions s pid)) newPrice of
       Inl err \<Rightarrow> Inl err
     | Inr pc \<Rightarrow>
         if sint pc = - (2 ^ 255) then Inl (Panic 0x11)
         else if \<not> \<bar>sint pc\<bar> \<le> 50 * 10 ^ 16 then Inl (Revert ''Price change too large'')
         else Inr (s\<lparr> o_positions := (o_positions s)(pid :=
                        (o_positions s pid)\<lparr> currentPrice := newPrice \<rparr>),
                      o_events := o_events s @ [PriceUpdate pid
                        (currentPrice (o_positions s pid)) newPrice pc] \<rparr>))"
  using assms
  by (simp add: updatePrice_def Let_def abs_int256_eq le_MAX_PRICE_CHANGE split: sum.splits)

lemma priceChange_of_zero_old: "0 < newPrice \<Longrightarrow> isl (priceChange_of 0 newPrice)"
  by (simp add: priceChange_of_def checked_sub_def checked_mul_def checked_div_def
      split: sum.splits)

lemma nat_int_overflow:
  fixes k :: nat and z :: int
  assumes "int k = z" and "2 ^ 256 \<le> z * 10 ^ 18"
  shows "\<not> k * 10 ^ 18 < 2 ^ 256"
proof
  assume "k * 10 ^ 18 < 2 ^ 256"
  then have "int (k * 10 ^ 18) < int (2 ^ 256)"
    by (rule of_nat_less_iff [THEN iffD2])
  then have "int k * 10 ^ 18 < 2 ^ 256"
    by simp
  with assms show False by simp
qed

lemma unat_diff_abs:
  assumes "(y::uint256) \<le> x"
  shows "int (unat (x - y)) = \<bar>uint x - uint y\<bar>" and "int (unat (x - y)) = \<bar>uint y - uint x\<bar>"
proof -
  have le: "uint y \<le> uint x"
    using assms by (simp only: word_le_def)
  have "int (unat (x - y)) = uint (x - y)"
    by (rule uint_nat [symmetric])
  also have "\<dots> = uint x - uint y"
    by (rule uint_sub_lem [THEN iffD1, OF le])
  finally have e: "int (unat (x - y)) = uint x - uint y" .
  show "int (unat (x - y)) = \<bar>uint x - uint y\<bar>"
    unfolding e using le by linarith
  show "int (unat (x - y)) = \<bar>uint y - uint x\<bar>"
    unfolding e using le by linarith
qed

lemma priceChange_of_overflow:
  assumes "2 ^ 256 \<le> \<bar>uint newPrice - uint oldPrice\<bar> * 10 ^ 18"
  shows "isl (priceChange_of oldPrice newPrice)"
proof (cases "oldPrice < newPrice")
  case True
  then have le: "oldPrice \<le> newPrice" by simp
  have "\<not> unat (newPrice - oldPrice) * 10 ^ 18 < 2 ^ 256"
    using unat_diff_abs(1) [OF le] assms by (rule nat_int_overflow)
  then show ?thesis
    using True le
    by (simp add: priceChange_of_def checked_sub_def checked_mul_def unat_PRICE_PRECISION)
next
  case False
  then have le: "newPrice \<le> oldPrice" by simp
  have "\<not> unat (oldPrice - newPrice) * 10 ^ 18 < 2 ^ 256"
    using unat_diff_abs(2) [OF le] assms by (rule nat_int_overflow)
  then show ?thesis
    using False le
    by (simp add: priceChange_of_def checked_sub_def checked_mul_def unat_PRICE_PRECISION)
qed

lemma sint_word_of_int_small:
  assumes "- (2 ^ 255) \<le> k" and "k < 2 ^ 255"
  shows "sint (word_of_int k :: int256) = k"
proof -
  have "sint (word_of_int k :: int256) = signed_take_bit (LENGTH(256) - 1) k"
    by (rule sint_sbintrunc')
  also have "\<dots> = signed_take_bit 255 k"
    by simp
  also have "\<dots> = k"
    using assms by (rule signed_take_bit_int_eq_self)
  finally show ?thesis .
qed

lemma priceChange_spec_rising:
  assumes lt: "old < new" and op: "0 < old"
    and nov: "\<bar>uint new - uint old\<bar> * 10 ^ 18 < 2 ^ 256"
  shows "\<exists>pc. priceChange_of old new = Inr pc
    \<and> (if sint pc = - (2 ^ 255) \<or> \<not> \<bar>sint pc\<bar> \<le> 50 * 10 ^ 16
        then 50 * 10 ^ 16 < \<bar>spec_price_delta (uint old) (uint new)\<bar>
        else \<not> 50 * 10 ^ 16 < \<bar>spec_price_delta (uint old) (uint new)\<bar>
             \<and> pc = word_of_int (spec_price_delta (uint old) (uint new)))"
proof -
  let ?q = "((new - old) * PRICE_PRECISION) div old"
  let ?n = "((unat new - unat old) * 10 ^ 18) div unat old"
  have le: "old \<le> new" using lt by simp
  have d: "unat (new - old) = unat new - unat old"
    using le by (simp add: unat_sub)
  have "int ((unat new - unat old) * 10 ^ 18) < int (2 ^ 256)"
    using nov unat_diff_abs(1) [OF le] unfolding d by simp
  then have nov': "(unat new - unat old) * 10 ^ 18 < 2 ^ 256"
    by (rule of_nat_less_iff [THEN iffD1])
  have upos: "0 < unat old"
    using op by (simp add: unat_gt_0 word_neq_0_conv)
  have ult: "unat old < unat new"
    using lt by (simp add: word_less_nat_alt)
  note rq = rising_q [OF lt op nov']
  have pc: "priceChange_of old new = Inr ?q" and uq: "unat ?q = ?n"
    using rq by simp_all
  have delta: "spec_price_delta (uint old) (uint new) = int ?n"
    using spec_delta_rising [OF ult upos] by (simp only: uint_nat)
  have uintq: "uint ?q = int ?n"
    using uq by (simp only: uint_nat)
  show ?thesis
  proof (cases "?n < 2 ^ 255")
    case True
    then have "int ?n < 2 ^ 255"
      by (simp only: of_nat_less_numeral_power_cancel_iff)
    then have s: "sint ?q = int ?n"
      using sint_small [of ?q] unfolding uintq by simp
    have w: "?q = word_of_int (int ?n)"
      using word_of_int_uint [of ?q] unfolding uintq by simp
    have nm: "int ?n \<noteq> - (2 ^ 255)"
      by (rule less_imp_neq [THEN not_sym], rule less_le_trans [of _ 0]) simp_all
    show ?thesis
      apply (rule exI [of _ ?q])
      apply (simp only: pc s delta)
      using w nm apply (simp add: not_less)
      done
  next
    case False
    then have big: "2 ^ 255 \<le> ?n" by simp
    have rej: "5 * 10 ^ 17 < (2::nat) ^ 256 - ?n"
      using nov' upos big by (rule wrap_is_rejected)
    have nlt: "?n < 2 ^ 256"
      using rej by simp
    have "int (2 ^ 255) \<le> int ?n"
      using big by (rule of_nat_le_iff [THEN iffD2])
    then have "2 ^ 255 \<le> uint ?q"
      unfolding uintq by simp
    then have s: "sint ?q = int ?n - 2 ^ 256"
      using sint_big [of ?q] unfolding uintq by simp
    have "int (5 * 10 ^ 17) < int (2 ^ 256 - ?n)"
      using rej by (rule of_nat_less_iff [THEN iffD2])
    then have r1: "5 * 10 ^ 17 < 2 ^ 256 - int ?n"
      using nlt by (simp add: of_nat_diff)
    have r2: "(5::int) * 10 ^ 17 < int ?n"
      using \<open>int (2 ^ 255) \<le> int ?n\<close> by simp
    show ?thesis
      apply (rule exI [of _ ?q])
      apply (simp only: pc s delta)
      using r1 r2 apply simp
      done
  qed
qed

lemma priceChange_spec_falling:
  assumes le: "new \<le> old" and np: "0 < new"
    and nov: "\<bar>uint new - uint old\<bar> * 10 ^ 18 < 2 ^ 256"
  shows "\<exists>pc. priceChange_of old new = Inr pc
    \<and> (if sint pc = - (2 ^ 255) \<or> \<not> \<bar>sint pc\<bar> \<le> 50 * 10 ^ 16
        then 50 * 10 ^ 16 < \<bar>spec_price_delta (uint old) (uint new)\<bar>
        else \<not> 50 * 10 ^ 16 < \<bar>spec_price_delta (uint old) (uint new)\<bar>
             \<and> pc = word_of_int (spec_price_delta (uint old) (uint new)))"
proof -
  let ?q = "((old - new) * PRICE_PRECISION) div old"
  let ?n = "((unat old - unat new) * 10 ^ 18) div unat old"
  have d: "unat (old - new) = unat old - unat new"
    using le by (simp add: unat_sub)
  have "int ((unat old - unat new) * 10 ^ 18) < int (2 ^ 256)"
    using nov unat_diff_abs(2) [OF le] unfolding d by simp
  then have nov': "(unat old - unat new) * 10 ^ 18 < 2 ^ 256"
    by (rule of_nat_less_iff [THEN iffD1])
  have op: "0 < old" using np le by (rule less_le_trans)
  have upos: "0 < unat old"
    using op by (simp add: unat_gt_0 word_neq_0_conv)
  have ule: "unat new \<le> unat old"
    using le by (simp add: word_le_nat_alt)
  note fq = falling_q [OF le np nov']
  have pc: "priceChange_of old new = Inr (- ?q)" and uq: "unat ?q = ?n"
    and small: "?n < 10 ^ 18"
    using fq by simp_all
  have delta: "spec_price_delta (uint old) (uint new) = - int ?n"
    using spec_delta_falling [OF ule upos] by (simp only: uint_nat)
  have uintq: "uint ?q = int ?n"
    using uq by (simp only: uint_nat)
  have w0: "word_of_int (int ?n) = ?q"
    using word_of_int_uint [of ?q] unfolding uintq .
  have w: "- ?q = word_of_int (- int ?n)"
    unfolding w0 [symmetric] by (rule wi_hom_neg)
  have isml: "int ?n < 10 ^ 18"
    using small by (simp only: of_nat_less_numeral_power_cancel_iff)
  have lo: "- (2 ^ 255) \<le> - int ?n"
    using isml by simp
  have hi: "- int ?n < 2 ^ 255"
    by (rule le_less_trans [of _ 0]) simp_all
  have s: "sint (- ?q) = - int ?n"
    unfolding w using lo hi by (rule sint_word_of_int_small)
  have nm: "- int ?n \<noteq> - (2 ^ 255)"
    using isml by simp
  show ?thesis
    apply (rule exI [of _ "- ?q"])
    apply (simp only: pc s delta)
    using w nm apply (simp add: not_less)
    done
qed

lemma priceChange_spec:
  assumes np: "0 < new" and op: "0 < old"
    and nov: "\<bar>uint new - uint old\<bar> * 10 ^ 18 < 2 ^ 256"
  shows "\<exists>pc. priceChange_of old new = Inr pc
    \<and> (if sint pc = - (2 ^ 255) \<or> \<not> \<bar>sint pc\<bar> \<le> 50 * 10 ^ 16
        then 50 * 10 ^ 16 < \<bar>spec_price_delta (uint old) (uint new)\<bar>
        else \<not> 50 * 10 ^ 16 < \<bar>spec_price_delta (uint old) (uint new)\<bar>
             \<and> pc = word_of_int (spec_price_delta (uint old) (uint new)))"
proof (cases "old < new")
  case True
  then show ?thesis using op nov by (rule priceChange_spec_rising)
next
  case False
  then have "new \<le> old" by simp
  then show ?thesis using np nov by (rule priceChange_spec_falling)
qed

text \<open>
  C10, as claimed: for every active position and every positive new price,
  \<open>updatePrice\<close> rejects exactly when the relative change exceeds 50%. It is not so
  where the checked arithmetic gives up first: with a current price of \<open>2^200\<close> and a new
  price 25% above it, the product \<open>(newPrice - oldPrice) * 10^18\<close> does not fit 256 bits
  and the call panics, although the change is within the bound.
\<close>

theorem updatePrice_overflow_rejects:
  "updatePrice (call_env admin 0) 1 (2 ^ 200 + 2 ^ 198) (demo_origin (2 ^ 200)) = Inl (Panic 0x11)
   \<and> spec_price_delta (uint (2 ^ 200 :: uint256)) (uint (2 ^ 200 + 2 ^ 198 :: uint256))
       = 25 * 10 ^ 16
   \<and> \<not> 50 * 10 ^ 16 < \<bar>spec_price_delta (uint (2 ^ 200 :: uint256))
                            (uint (2 ^ 200 + 2 ^ 198 :: uint256))\<bar>"
  by (simp add: updatePrice_def priceChange_of_def checked_sub_def checked_mul_def
      PRICE_PRECISION_def demo_origin_def call_env_def admin_def spec_price_delta_def
      signed_divide_int_def)


text \<open>
  C10, amended. Called by the owner on an active position with a positive new price:
  when the current price is positive and \<open>|newPrice - oldPrice| * 10^18\<close> fits 256
  bits, \<open>updatePrice\<close> computes the signed relative change
  \<open>(newPrice - oldPrice) * 10^18 / oldPrice\<close> (truncated towards zero), rejects the update
  exactly when its absolute value exceeds \<open>50 * 10^16\<close>, and otherwise sets the current
  price to the new price and logs the change; when the current price is zero or the
  product does not fit, the update is rejected whatever the change. A rejected update
  leaves the current price as it was.
\<close>

theorem updatePrice_bound:
  assumes v: "msg_value e = 0" and o: "msg_sender e = o_owner s"
    and a: "o_isActive (o_positions s positionId)" and np: "0 < newPrice"
    and old: "oldPrice = currentPrice (o_positions s positionId)"
  shows "(oldPrice = 0 \<or> 2 ^ 256 \<le> \<bar>uint newPrice - uint oldPrice\<bar> * 10 ^ 18 \<longrightarrow>
           isl (updatePrice e positionId newPrice s))
    \<and> (0 < oldPrice \<and> \<bar>uint newPrice - uint oldPrice\<bar> * 10 ^ 18 < 2 ^ 256
         \<and> 50 * 10 ^ 16 < \<bar>spec_price_delta (uint oldPrice) (uint newPrice)\<bar> \<longrightarrow>
           isl (updatePrice e positionId newPrice s))
    \<and> (0 < oldPrice \<and> \<bar>uint newPrice - uint oldPrice\<bar> * 10 ^ 18 < 2 ^ 256
         \<and> \<not> 50 * 10 ^ 16 < \<bar>spec_price_delta (uint oldPrice) (uint newPrice)\<bar> \<longrightarrow>
           updatePrice e positionId newPrice s
             = Inr (s\<lparr> o_positions := (o_positions s)(positionId :=
                        (o_positions s positionId)\<lparr> currentPrice := newPrice \<rparr>),
                      o_events := o_events s @ [PriceUpdate positionId oldPrice newPrice
                        (word_of_int (spec_price_delta (uint oldPrice) (uint newPrice)))] \<rparr>))
    \<and> (isl (updatePrice e positionId newPrice s) \<longrightarrow>
           currentPrice (o_positions (after s (updatePrice e positionId newPrice s)) positionId)
             = oldPrice)"
proof (intro conjI impI)
  note eq = updatePrice_eq [OF v o a np, folded old]
  {
    assume "oldPrice = 0 \<or> 2 ^ 256 \<le> \<bar>uint newPrice - uint oldPrice\<bar> * 10 ^ 18"
    then have "isl (priceChange_of oldPrice newPrice)"
      using priceChange_of_zero_old [OF np] priceChange_of_overflow by blast
    then show "isl (updatePrice e positionId newPrice s)"
      unfolding eq by (cases "priceChange_of oldPrice newPrice") simp_all
  }
  {
    assume h: "0 < oldPrice \<and> \<bar>uint newPrice - uint oldPrice\<bar> * 10 ^ 18 < 2 ^ 256
         \<and> 50 * 10 ^ 16 < \<bar>spec_price_delta (uint oldPrice) (uint newPrice)\<bar>"
    then obtain pc where pc: "priceChange_of oldPrice newPrice = Inr pc"
      and c: "if sint pc = - (2 ^ 255) \<or> \<not> \<bar>sint pc\<bar> \<le> 50 * 10 ^ 16
        then 50 * 10 ^ 16 < \<bar>spec_price_delta (uint oldPrice) (uint newPrice)\<bar>
        else \<not> 50 * 10 ^ 16 < \<bar>spec_price_delta (uint oldPrice) (uint newPrice)\<bar>
             \<and> pc = word_of_int (spec_price_delta (uint oldPrice) (uint newPrice))"
      using priceChange_spec [OF np, of oldPrice] by blast
    have "sint pc = - (2 ^ 255) \<or> \<not> \<bar>sint pc\<bar> \<le> 50 * 10 ^ 16"
      using c h by (auto split: if_splits)
    then show "isl (updatePrice e positionId newPrice s)"
      unfolding eq pc by auto
  }
  {
    assume h: "0 < oldPrice \<and> \<bar>uint newPrice - uint oldPrice\<bar> * 10 ^ 18 < 2 ^ 256
         \<and> \<not> 50 * 10 ^ 16 < \<bar>spec_price_delta (uint oldPrice) (uint newPrice)\<bar>"
    then obtain pc where pc: "priceChange_of oldPrice newPrice = Inr pc"
      and c: "if sint pc = - (2 ^ 255) \<or> \<not> \<bar>sint pc\<bar> \<le> 50 * 10 ^ 16
        then 50 * 10 ^ 16 < \<bar>spec_price_delta (uint oldPrice) (uint newPrice)\<bar>
        else \<not> 50 * 10 ^ 16 < \<bar>spec_price_delta (uint oldPrice) (uint newPrice)\<bar>
             \<and> pc = word_of_int (spec_price_delta (uint oldPrice) (uint newPrice))"
      using priceChange_spec [OF np, of oldPrice] by blast
    have ok: "sint pc \<noteq> - (2 ^ 255)" "\<bar>sint pc\<bar> \<le> 50 * 10 ^ 16"
      and w: "pc = word_of_int (spec_price_delta (uint oldPrice) (uint newPrice))"
      using c h by (auto split: if_splits)
    show "updatePrice e positionId newPrice s
             = Inr (s\<lparr> o_positions := (o_positions s)(positionId :=
                        (o_positions s positionId)\<lparr> currentPrice := newPrice \<rparr>),
                      o_events := o_events s @ [PriceUpdate positionId oldPrice newPrice
                        (word_of_int (spec_price_delta (uint oldPrice) (uint newPrice)))] \<rparr>)"
      unfolding eq pc using ok w by simp
  }
  {
    assume "isl (updatePrice e positionId newPrice s)"
    then have "after s (updatePrice e positionId newPrice s) = s"
      by (rule isl_after)
    then show "currentPrice (o_positions (after s (updatePrice e positionId newPrice s))
        positionId) = oldPrice"
      using old by simp
  }
qed

theorem updatePrice_bound_witness:
  "updatePrice (call_env admin 0) 1 (25 * 10 ^ 17) (demo_origin (2 * 10 ^ 18))
     = Inr ((demo_origin (2 * 10 ^ 18))\<lparr>
         o_positions := (o_positions (demo_origin (2 * 10 ^ 18)))(1 :=
           (o_positions (demo_origin (2 * 10 ^ 18)) 1)\<lparr> currentPrice := 25 * 10 ^ 17 \<rparr>),
         o_events := [PriceUpdate 1 (2 * 10 ^ 18) (25 * 10 ^ 17) (25 * 10 ^ 16)] \<rparr>)
   \<and> isl (updatePrice (call_env admin 0) 1 (4 * 10 ^ 18) (demo_origin (2 * 10 ^ 18)))
   \<and> currentPrice (o_positions (after (demo_origin (2 * 10 ^ 18))
        (updatePrice (call_env admin 0) 1 (4 * 10 ^ 18) (demo_origin (2 * 10 ^ 18)))) 1)
       = 2 * 10 ^ 18
   \<and> isl (updatePrice (call_env admin 0) 1 (2 ^ 200 + 2 ^ 198) (demo_origin (2 ^ 200)))
   \<and> isl (updatePrice (call_env admin 0) 1 5 (demo_origin 0))"
proof -
  let ?e = "call_env admin 0"
  have v: "msg_value ?e = 0" and o: "msg_sender ?e = o_owner (demo_origin p)"
    and a: "o_isActive (o_positions (demo_origin p) 1)"
    and old: "p = currentPrice (o_positions (demo_origin p) 1)" for p
    by (simp_all add: call_env_def demo_origin_def)
  note inst = updatePrice_bound [OF v o a _ old]
  have d1: "spec_price_delta (uint (2 * 10 ^ 18 :: uint256)) (uint (25 * 10 ^ 17 :: uint256))
      = 25 * 10 ^ 16"
    and d2: "spec_price_delta (uint (2 * 10 ^ 18 :: uint256)) (uint (4 * 10 ^ 18 :: uint256))
      = 10 ^ 18"
    by (simp_all add: spec_price_delta_def signed_divide_int_def)
  have h1: "(0::uint256) < 2 * 10 ^ 18
      \<and> \<bar>uint (25 * 10 ^ 17 :: uint256) - uint (2 * 10 ^ 18 :: uint256)\<bar> * 10 ^ 18 < 2 ^ 256
      \<and> \<not> 50 * 10 ^ 16 < \<bar>spec_price_delta (uint (2 * 10 ^ 18 :: uint256))
                               (uint (25 * 10 ^ 17 :: uint256))\<bar>"
    unfolding d1 by simp
  have h2: "(0::uint256) < 2 * 10 ^ 18
      \<and> \<bar>uint (4 * 10 ^ 18 :: uint256) - uint (2 * 10 ^ 18 :: uint256)\<bar> * 10 ^ 18 < 2 ^ 256
      \<and> 50 * 10 ^ 16 < \<bar>spec_price_delta (uint (2 * 10 ^ 18 :: uint256))
                             (uint (4 * 10 ^ 18 :: uint256))\<bar>"
    unfolding d2 by simp
  have h3: "(2 ^ 200 :: uint256) = 0
      \<or> 2 ^ 256 \<le> \<bar>uint (2 ^ 200 + 2 ^ 198 :: uint256) - uint (2 ^ 200 :: uint256)\<bar> * 10 ^ 18"
    by simp
  have g1: "updatePrice ?e 1 (25 * 10 ^ 17) (demo_origin (2 * 10 ^ 18))
     = Inr ((demo_origin (2 * 10 ^ 18))\<lparr>
         o_positions := (o_positions (demo_origin (2 * 10 ^ 18)))(1 :=
           (o_positions (demo_origin (2 * 10 ^ 18)) 1)\<lparr> currentPrice := 25 * 10 ^ 17 \<rparr>),
         o_events := o_events (demo_origin (2 * 10 ^ 18))
           @ [PriceUpdate 1 (2 * 10 ^ 18) (25 * 10 ^ 17)
                (word_of_int (spec_price_delta (uint (2 * 10 ^ 18 :: uint256))
                                (uint (25 * 10 ^ 17 :: uint256))))] \<rparr>)"
    using inst [of "25 * 10 ^ 17" "2 * 10 ^ 18", THEN conjunct2, THEN conjunct2, THEN conjunct1]
      h1 by simp
  have g2: "isl (updatePrice ?e 1 (4 * 10 ^ 18) (demo_origin (2 * 10 ^ 18)))"
    using inst [of "4 * 10 ^ 18" "2 * 10 ^ 18", THEN conjunct2, THEN conjunct1] h2 by simp
  have g3: "currentPrice (o_positions (after (demo_origin (2 * 10 ^ 18))
        (updatePrice ?e 1 (4 * 10 ^ 18) (demo_origin (2 * 10 ^ 18)))) 1) = 2 * 10 ^ 18"
    using inst [of "4 * 10 ^ 18" "2 * 10 ^ 18", THEN conjunct2, THEN conjunct2, THEN conjunct2]
      g2 by simp
  have g4: "isl (updatePrice ?e 1 (2 ^ 200 + 2 ^ 198) (demo_origin (2 ^ 200)))"
    using inst [of "2 ^ 200 + 2 ^ 198" "2 ^ 200", THEN conjunct1] h3 by simp
  have g5: "isl (updatePrice ?e 1 5 (demo_origin 0))"
    using inst [of 5 0, THEN conjunct1] by simp
  show ?thesis
    using g1 g2 g3 g4 g5 unfolding d1 by (simp add: demo_origin_def)
qed

end
